theory Spec2Isabelle
  imports Main "HOL-Library.AList"
begin

section \<open>Values and the shared state\<close>

text \<open>
  The agents exchange untyped Python values: the arguments of a tool call are decoded
  from the text of a language model, so a parameter may hold a string, a number, a
  dictionary or \<^verbatim>\<open>None\<close>. A dictionary keeps its insertion order, so it is an
  association list. A string is a list of characters, each standing for a code point
  below 256.
\<close>

datatype pyval =
    PNone
  | PBool bool
  | PInt int
  | PStr string
  | PDict "(string \<times> pyval) list"

datatype error = EOFError | AttributeError | TypeError | UnboundLocalError | External string

text \<open>
  \<^verbatim>\<open>get_initial_state\<close> of appcopy.py builds a dictionary with nine fixed keys, and no
  code of the repository adds or removes a key: the dictionary is a record. The seven
  parameter fields hold whatever value a tool call stored; \<^verbatim>\<open>current_speaker\<close> holds
  \<^verbatim>\<open>None\<close> or a string, \<^verbatim>\<open>just_finished\<close> a boolean.
\<close>

record shared_state =
  input_dir :: pyval
  chunk_size :: pyval
  chunk_overlap :: pyval
  embedding_model :: pyval
  reranking_model :: pyval
  search_type :: pyval
  query :: pyval
  current_speaker :: "string option"
  just_finished :: bool

definition get_initial_state :: shared_state where
  "get_initial_state =
     \<lparr>input_dir = PNone, chunk_size = PNone, chunk_overlap = PNone,
      embedding_model = PNone, reranking_model = PNone, search_type = PNone,
      query = PNone, current_speaker = None, just_finished = False\<rparr>"

section \<open>The tools of the document pre-processing agent\<close>

text \<open>
  document_pre_processing_agent.py, lines 75 to 97. Each tool is a closure over the
  shared dictionary; it returns the dictionary as it has become, with its result.
  \<^verbatim>\<open>
  def has_input_dir(input_dir) -> bool:
      state['input_dir'] = input_dir
      return (state["input_dir"] is not None)
  def done() -> None:
      state["current_speaker"] = None
      state["just_finished"] = True
  \<close>
\<close>

definition has_input_dir :: "pyval \<Rightarrow> shared_state \<Rightarrow> shared_state \<times> bool" where
  "has_input_dir v st =
     (let st' = st\<lparr>input_dir := v\<rparr> in (st', input_dir st' \<noteq> PNone))"

definition has_chunk_size :: "pyval \<Rightarrow> shared_state \<Rightarrow> shared_state \<times> bool" where
  "has_chunk_size v st =
     (let st' = st\<lparr>chunk_size := v\<rparr> in (st', chunk_size st' \<noteq> PNone))"

definition has_chunk_overlap :: "pyval \<Rightarrow> shared_state \<Rightarrow> shared_state \<times> bool" where
  "has_chunk_overlap v st =
     (let st' = st\<lparr>chunk_overlap := v\<rparr> in (st', chunk_overlap st' \<noteq> PNone))"

definition preprocessing_done :: "shared_state \<Rightarrow> shared_state" where
  "preprocessing_done st = st\<lparr>current_speaker := None, just_finished := True\<rparr>"

section \<open>The tools of the generation agent\<close>

text \<open>
  generation_agent.py, lines 50 to 62 and 97 to 118. Here both tools take a parameter
  named \<^verbatim>\<open>state\<close>, which hides the dictionary that \<^verbatim>\<open>GenerationAgent\<close> received:
  \<^verbatim>\<open>
  def prompt_generation(state):
      retriever_agent = Retriever(state)
      reranked_documents = retriever_agent.retriever()
      context = "\n\n".join(reranked_documents)
      query = state.get('query')
      prompt_templ = prompt_template().format(context_str=context, query_str=query)
      return prompt_templ
  def generation(state):
      prompt = prompt_generation(state)
      response = create_query_engine(prompt)
      return response
  def done(state):
      response = generation(state)
      state["current_speaker"] = None
      state["just_finished"] = True
      return response
  \<close>
  The retriever (retriever_agent.py is not among the sources), the prompt template and
  the query engine belong to external collaborators: they are parameters, and the first
  and the last may raise.
\<close>

record collaborators =
  retriever :: "pyval \<Rightarrow> error + string list"
  format_prompt :: "string \<Rightarrow> pyval \<Rightarrow> string"
  create_query_engine :: "string \<Rightarrow> error + string"

text \<open>\<^verbatim>\<open>sep.join(xs)\<close> on a list of strings.\<close>

fun join :: "string \<Rightarrow> string list \<Rightarrow> string" where
  "join sep [] = []"
| "join sep [x] = x"
| "join sep (x # y # ys) = x @ sep @ join sep (y # ys)"

text \<open>
  \<^verbatim>\<open>v.get(k)\<close> and \<^verbatim>\<open>v[k] = x\<close>: only a dictionary has them; on a string, a number
  or \<^verbatim>\<open>None\<close> the first raises AttributeError and the second TypeError.
\<close>

fun py_get :: "pyval \<Rightarrow> string \<Rightarrow> error + pyval" where
  "py_get (PDict d) k = Inr (case map_of d k of None \<Rightarrow> PNone | Some v \<Rightarrow> v)"
| "py_get _ k = Inl AttributeError"

fun py_setitem :: "pyval \<Rightarrow> string \<Rightarrow> pyval \<Rightarrow> error + pyval" where
  "py_setitem (PDict d) k x = Inr (PDict (AList.update k x d))"
| "py_setitem _ k x = Inl TypeError"

definition prompt_generation :: "collaborators \<Rightarrow> pyval \<Rightarrow> error + string" where
  "prompt_generation c arg =
     (case retriever c arg of
        Inl e \<Rightarrow> Inl e
      | Inr reranked_documents \<Rightarrow>
          (let context = join [CHR 0x0A, CHR 0x0A] reranked_documents in
           case py_get arg ''query'' of
             Inl e \<Rightarrow> Inl e
           | Inr q \<Rightarrow> Inr (format_prompt c context q)))"

definition generation :: "collaborators \<Rightarrow> pyval \<Rightarrow> error + string" where
  "generation c arg =
     (case prompt_generation c arg of
        Inl e \<Rightarrow> Inl e
      | Inr prompt \<Rightarrow> create_query_engine c prompt)"

text \<open>
  \<^verbatim>\<open>done\<close> returns its parameter as it has become, with the response. The dictionary
  of the agent is not in its scope.
\<close>

definition generation_done :: "collaborators \<Rightarrow> pyval \<Rightarrow> error + pyval \<times> string" where
  "generation_done c arg =
     (case generation c arg of
        Inl e \<Rightarrow> Inl e
      | Inr response \<Rightarrow>
          (case py_setitem arg ''current_speaker'' PNone of
             Inl e \<Rightarrow> Inl e
           | Inr arg1 \<Rightarrow>
               (case py_setitem arg1 ''just_finished'' (PBool True) of
                  Inl e \<Rightarrow> Inl e
                | Inr arg2 \<Rightarrow> Inr (arg2, response))))"

section \<open>Strings\<close>

text \<open>
  \<^verbatim>\<open>str.strip()\<close> removes the white space at both ends and \<^verbatim>\<open>str.lower()\<close>
  maps each upper-case letter to its lower-case one. Among the code points below 256,
  Python's white space is 9 to 13, 28 to 32, 133 and 160, and the upper-case letters are
  65 to 90 and 192 to 222 without 215; each has its lower-case letter 32 places further.
\<close>

definition isspace :: "char \<Rightarrow> bool" where
  "isspace c =
     (let n = (of_char c :: nat)
      in (9 \<le> n \<and> n \<le> 13) \<or> (28 \<le> n \<and> n \<le> 32) \<or> n = 133 \<or> n = 160)"

definition strip :: "string \<Rightarrow> string" where
  "strip s = rev (dropWhile isspace (rev (dropWhile isspace s)))"

definition lower_char :: "char \<Rightarrow> char" where
  "lower_char c =
     (let n = (of_char c :: nat)
      in if (65 \<le> n \<and> n \<le> 90) \<or> (192 \<le> n \<and> n \<le> 222 \<and> n \<noteq> 215)
         then char_of (n + 32) else c)"

definition lower :: "string \<Rightarrow> string" where
  "lower s = map lower_char s"

section \<open>The agents as seen from the loop\<close>

text \<open>
  A conversation is a list of messages, each a role and a text.
\<close>

type_synonym message = "string \<times> string"
type_synonym history = "message list"

text \<open>
  A call of \<^verbatim>\<open>agent.chat(msg, chat_history=h)\<close> lets a language model choose the tools
  it runs; what the loop sees afterwards is the effect of these tool calls on the shared
  dictionary, the reply and the memory of the agent (\<^verbatim>\<open>memory.get_all()\<close>).

  The list given as \<^verbatim>\<open>chat_history\<close> is a Python object, and the loop keeps it in
  the variable \<^verbatim>\<open>current_history\<close>. Whether the library copies it or adds the new
  messages to it in place is not decided by the sources, so a turn also records what the
  list that was passed holds after the chat (\<open>passed_after\<close>) and whether the memory
  that the agent returns is that very list (\<open>memory_is_passed\<close>), in which case the
  memory is what the list holds.
\<close>

record 'call turn =
  calls :: "'call list"
  reply :: string
  memory :: history
  passed_after :: history
  memory_is_passed :: bool

datatype preprocessing_call =
    Has_input_dir pyval
  | Has_chunk_size pyval
  | Has_chunk_overlap pyval
  | Process_documents
  | Preprocessing_done

text \<open>
  \<^verbatim>\<open>process_documents\<close> (document_pre_processing_agent.py, lines 64 to 71) reads the
  three values that \<^verbatim>\<open>preprocess_docs.__init__\<close> copied and works on files: it writes
  no field of the shared dictionary.
\<close>

fun preprocessing_call_effect :: "preprocessing_call \<Rightarrow> shared_state \<Rightarrow> shared_state" where
  "preprocessing_call_effect (Has_input_dir v) st = fst (has_input_dir v st)"
| "preprocessing_call_effect (Has_chunk_size v) st = fst (has_chunk_size v st)"
| "preprocessing_call_effect (Has_chunk_overlap v) st = fst (has_chunk_overlap v st)"
| "preprocessing_call_effect Process_documents st = st"
| "preprocessing_call_effect Preprocessing_done st = preprocessing_done st"

datatype generation_call = Generation_tool pyval | Done_tool pyval

text \<open>
  A tool of the generation agent runs on the argument that the language model supplied,
  and its result or its exception goes back to the language model. The shared
  dictionary is left as it was.
\<close>

fun generation_tool_call ::
  "collaborators \<Rightarrow> generation_call \<Rightarrow> shared_state \<Rightarrow> shared_state \<times> (error + string)" where
  "generation_tool_call c (Generation_tool arg) st = (st, generation c arg)"
| "generation_tool_call c (Done_tool arg) st =
     (st, case generation_done c arg of Inl e \<Rightarrow> Inl e | Inr (arg', response) \<Rightarrow> Inr response)"

text \<open>
  Modelled from the spec: the tools of the indexing agent (indexing_agent.py, which
  defines \<^verbatim>\<open>QdrantIndexingAgent\<close>, is not among the sources). Section 4.2 of the
  specification gives a task agent parameter setters and one completion action: the
  indexing agent collects \<^verbatim>\<open>embedding_model\<close>, where a null or empty value leaves the
  field as it is, runs the external embed-and-index executor, and finishes by clearing
  \<^verbatim>\<open>current_speaker\<close> and setting \<^verbatim>\<open>just_finished\<close>.
\<close>

datatype indexing_call = Set_embedding_model pyval | Embed_and_index | Finish

fun indexing_call_effect :: "indexing_call \<Rightarrow> shared_state \<Rightarrow> shared_state" where
  "indexing_call_effect (Set_embedding_model v) st =
     (if v = PNone \<or> v = PStr [] then st else st\<lparr>embedding_model := v\<rparr>)"
| "indexing_call_effect Embed_and_index st = st"
| "indexing_call_effect Finish st = st\<lparr>current_speaker := None, just_finished := True\<rparr>"

text \<open>
  The language models and the memory buffer are external: one iteration of the loop
  takes their answers from an environment. Each answer is a function of what the call
  receives (the shared dictionary that the factory prints into the system prompt, the
  message, the history), so nothing is assumed about the models. The concierge agent has
  one tool, \<^verbatim>\<open>dummy_tool\<close>, which does nothing. \<^verbatim>\<open>memory_get\<close> is
  \<^verbatim>\<open>ChatMemoryBuffer.get\<close>, which returns the messages that fit its token limit in a
  list of its own. The orchestration agent and the continuation agent are given a list
  too: \<open>orchestration_passed_after\<close> and \<open>continuation_passed_after\<close> are what that
  list holds after their chat. A fault of an external service is not modelled.
\<close>

record env =
  continuation_agent :: "shared_state \<Rightarrow> history \<Rightarrow> string"
  continuation_passed_after :: "shared_state \<Rightarrow> history \<Rightarrow> history"
  orchestration_agent :: "shared_state \<Rightarrow> string \<Rightarrow> history \<Rightarrow> string"
  orchestration_passed_after :: "shared_state \<Rightarrow> string \<Rightarrow> history \<Rightarrow> history"
  preprocessing_agent :: "shared_state \<Rightarrow> string \<Rightarrow> history \<Rightarrow> preprocessing_call turn"
  indexing_agent :: "shared_state \<Rightarrow> string \<Rightarrow> history \<Rightarrow> indexing_call turn"
  generation_agent :: "shared_state \<Rightarrow> string \<Rightarrow> history \<Rightarrow> generation_call turn"
  concierge_agent :: "shared_state \<Rightarrow> string \<Rightarrow> history \<Rightarrow> unit turn"
  memory_get :: "history \<Rightarrow> history"
  collab :: collaborators

datatype agent = DocumentPreprocessingAgent | QdrantIndexingAgent | GenerationAgent | ConciergeAgent

text \<open>
  The chat of an agent. The factory prints the shared dictionary into the system prompt
  when the agent is built (\<open>built\<close>), and the tools work on the dictionary as it is
  when they run (\<open>st\<close>).
\<close>

definition agent_chat ::
  "env \<Rightarrow> agent \<Rightarrow> shared_state \<Rightarrow> string \<Rightarrow> history \<Rightarrow> shared_state
     \<Rightarrow> shared_state \<times> string \<times> history" where
  "agent_chat e a built msg h st =
     (case a of
        DocumentPreprocessingAgent \<Rightarrow>
          (let t = preprocessing_agent e built msg h
           in (foldl (\<lambda>s c. preprocessing_call_effect c s) st (calls t), reply t, memory t))
      | QdrantIndexingAgent \<Rightarrow>
          (let t = indexing_agent e built msg h
           in (foldl (\<lambda>s c. indexing_call_effect c s) st (calls t), reply t, memory t))
      | GenerationAgent \<Rightarrow>
          (let t = generation_agent e built msg h
           in (foldl (\<lambda>s c. fst (generation_tool_call (collab e) c s)) st (calls t),
               reply t, memory t))
      | ConciergeAgent \<Rightarrow>
          (let t = concierge_agent e built msg h in (st, reply t, memory t)))"

text \<open>
  What the list passed to that chat holds afterwards, and whether the memory that the
  agent returned is that list.
\<close>

definition passed_list ::
  "env \<Rightarrow> agent \<Rightarrow> shared_state \<Rightarrow> string \<Rightarrow> history \<Rightarrow> history \<times> bool" where
  "passed_list e a built msg h =
     (case a of
        DocumentPreprocessingAgent \<Rightarrow>
          (let t = preprocessing_agent e built msg h
           in (if memory_is_passed t then memory t else passed_after t, memory_is_passed t))
      | QdrantIndexingAgent \<Rightarrow>
          (let t = indexing_agent e built msg h
           in (if memory_is_passed t then memory t else passed_after t, memory_is_passed t))
      | GenerationAgent \<Rightarrow>
          (let t = generation_agent e built msg h
           in (if memory_is_passed t then memory t else passed_after t, memory_is_passed t))
      | ConciergeAgent \<Rightarrow>
          (let t = concierge_agent e built msg h
           in (if memory_is_passed t then memory t else passed_after t, memory_is_passed t)))"

section \<open>The loop of \<^verbatim>\<open>run\<close>\<close>

text \<open>
  appcopy.py, lines 203 to 284. The state of the loop is its local variables, the lines
  still to be read from standard input, and a log of what the loop asked of the outside:
  the calls to the continuation agent, to the orchestration agent and to the dispatched
  agent, each with the arguments it received, and the lines read from the user. The
  log is not a variable of the program; the messages it prints are left out.
  \<^verbatim>\<open>current_history\<close> has no value before line 241 has run once; afterwards the
  field holds what the list bound to the variable holds. \<open>root_is_current\<close> tells that
  the list inside \<^verbatim>\<open>root_memory\<close> is the list bound to \<^verbatim>\<open>current_history\<close>, so
  that a chat that adds to the one adds to the other.
\<close>

datatype event =
    Continuation_chat shared_state history
  | User_input string "string option"
  | Orchestration_chat shared_state string history
  | Agent_chat agent shared_state string history

record loop_state =
  state :: shared_state
  root_memory :: history
  first_run :: bool
  is_retry :: bool
  should_continue :: bool
  current_history :: "history option"
  root_is_current :: bool
  stdin :: "string list"
  trace :: "event list"

definition initial :: "string list \<Rightarrow> loop_state" where
  "initial lines =
     \<lparr>state = get_initial_state, root_memory = [], first_run = True, is_retry = False,
      should_continue = True, current_history = None, root_is_current = False,
      stdin = lines, trace = []\<rparr>"

definition retry_message :: string where
  "retry_message = ''That's not right, try again. Pick one agent.''"

text \<open>\<^verbatim>\<open>input(prompt)\<close> reads one line and raises EOFError when there is none.\<close>

definition input :: "string \<Rightarrow> loop_state \<Rightarrow> error \<times> loop_state + string \<times> loop_state" where
  "input prompt ls =
     (case stdin ls of
        [] \<Rightarrow> Inl (EOFError, ls\<lparr>trace := trace ls @ [User_input prompt None]\<rparr>)
      | l # rest \<Rightarrow>
          Inr (l, ls\<lparr>stdin := rest, trace := trace ls @ [User_input prompt (Some l)]\<rparr>))"

text \<open>
  Lines 230 to 233 and 237 to 240 are the same but for the prompt:
  \<^verbatim>\<open>
  user_msg_str = input("> ").strip()
  if user_msg_str.lower() == "exit":
      should_continue = False
  \<close>
\<close>

definition read_user :: "string \<Rightarrow> loop_state \<Rightarrow> error \<times> loop_state + string \<times> loop_state" where
  "read_user prompt ls =
     (case input prompt ls of
        Inl x \<Rightarrow> Inl x
      | Inr (l, ls1) \<Rightarrow>
          (let user_msg_str = strip l
           in Inr (user_msg_str,
                   if lower user_msg_str = ''exit'' then ls1\<lparr>should_continue := False\<rparr> else ls1)))"

text \<open>
  Lines 213 to 240: the message of this turn. The continuation agent is given the list
  bound to \<^verbatim>\<open>current_history\<close> (line 227), which is still the list of the iteration
  before.
\<close>

definition next_utterance :: "env \<Rightarrow> loop_state \<Rightarrow> error \<times> loop_state + string \<times> loop_state" where
  "next_utterance e ls =
     (if first_run ls then Inr (''Hello there!'', ls\<lparr>first_run := False\<rparr>)
      else if is_retry ls then Inr (retry_message, ls\<lparr>is_retry := False\<rparr>)
      else if just_finished (state ls) then
        (case current_history ls of
           None \<Rightarrow> Inl (UnboundLocalError, ls)
         | Some h \<Rightarrow>
             (let user_msg_str = continuation_agent e (state ls) h;
                  h' = continuation_passed_after e (state ls) h;
                  ls1 = ls\<lparr>trace := trace ls @ [Continuation_chat (state ls) h],
                            current_history := Some h',
                            root_memory := (if root_is_current ls then h' else root_memory ls)\<rparr>
              in if user_msg_str = ''no_further_task'' then
                   (case read_user ''>> '' ls1 of
                      Inl x \<Rightarrow> Inl x
                    | Inr (m, ls2) \<Rightarrow>
                        Inr (m, ls2\<lparr>state := (state ls2)\<lparr>just_finished := False\<rparr>\<rparr>))
                 else Inr (user_msg_str, ls1\<lparr>state := (state ls1)\<lparr>just_finished := False\<rparr>\<rparr>)))
      else read_user ''> '' ls)"

text \<open>
  Lines 244 to 250: who speaks next. The test of line 244 is Python's truth of the
  value: \<^verbatim>\<open>None\<close> and the empty string are false.
\<close>

definition truthy :: "string option \<Rightarrow> bool" where
  "truthy v = (case v of None \<Rightarrow> False | Some s \<Rightarrow> s \<noteq> [])"

definition next_speaker :: "env \<Rightarrow> string \<Rightarrow> history \<Rightarrow> loop_state \<Rightarrow> string \<times> loop_state" where
  "next_speaker e user_msg_str h ls =
     (let asked = (strip (orchestration_agent e (state ls) user_msg_str h),
                   ls\<lparr>trace := trace ls @ [Orchestration_chat (state ls) user_msg_str h],
                      current_history :=
                        Some (orchestration_passed_after e (state ls) user_msg_str h)\<rparr>)
      in case current_speaker (state ls) of
           None \<Rightarrow> asked
         | Some s \<Rightarrow> if s = [] then asked else (s, ls))"

text \<open>
  Lines 254 to 272: the agent for the speaker. \<^verbatim>\<open>Speaker\<close> derives from \<^verbatim>\<open>str\<close>,
  so \<^verbatim>\<open>next_speaker == Speaker.Indexing\<close> compares the string with the value of the
  member. \<^verbatim>\<open>None\<close> is the last branch, which sets \<^verbatim>\<open>is_retry\<close> and continues.
\<close>

definition dispatch :: "string \<Rightarrow> shared_state \<Rightarrow> (agent \<times> shared_state) option" where
  "dispatch speaker st =
     (if speaker = ''data_pre_processing'' then
        Some (DocumentPreprocessingAgent, st\<lparr>current_speaker := Some speaker\<rparr>)
      else if speaker = ''indexing'' then
        Some (QdrantIndexingAgent, st\<lparr>current_speaker := Some speaker\<rparr>)
      else if speaker = ''generation'' then
        Some (GenerationAgent, st\<lparr>current_speaker := Some speaker\<rparr>)
      else if speaker = ''Concierge'' then Some (ConciergeAgent, st)
      else None)"

text \<open>
  One pass through the body of the loop. Each branch of the dispatch builds its agent
  before it stores the speaker (lines 256 and 257), so the agent is built on the shared
  dictionary as the orchestration agent saw it. Line 241 binds \<^verbatim>\<open>current_history\<close>
  to a new list; the orchestration agent and the dispatched agent are given that one
  list (lines 249 and 279), so the second is given what the first left in it. The
  memory of the agent replaces the memory of the loop (lines 283 and 284).
\<close>

definition iteration :: "env \<Rightarrow> loop_state \<Rightarrow> error \<times> loop_state + loop_state" where
  "iteration e ls =
     (case next_utterance e ls of
        Inl x \<Rightarrow> Inl x
      | Inr (user_msg_str, ls1) \<Rightarrow>
          (let h = memory_get e (root_memory ls1);
               ls2 = ls1\<lparr>current_history := Some h, root_is_current := False\<rparr>;
               (speaker, ls3) = next_speaker e user_msg_str h ls2
           in case dispatch speaker (state ls3) of
                None \<Rightarrow> Inr (ls3\<lparr>is_retry := True\<rparr>)
              | Some (a, st) \<Rightarrow>
                  (case current_history ls3 of
                     None \<Rightarrow> Inl (UnboundLocalError, ls3)
                   | Some h1 \<Rightarrow>
                       (let (st', response, new_history) =
                              agent_chat e a (state ls3) user_msg_str h1 st;
                            (left, same) = passed_list e a (state ls3) user_msg_str h1
                        in Inr (ls3\<lparr>state := st', root_memory := new_history,
                                    current_history := Some left, root_is_current := same,
                                    trace := trace ls3 @
                                      [Agent_chat a (state ls3) user_msg_str h1]\<rparr>)))))"

text \<open>
  The loop runs while \<^verbatim>\<open>should_continue\<close> holds and may run for ever; the list of
  environments, one for each iteration, bounds the number of iterations that are run.
\<close>

fun run_loop :: "env list \<Rightarrow> loop_state \<Rightarrow> error \<times> loop_state + loop_state" where
  "run_loop [] ls = Inr ls"
| "run_loop (e # es) ls =
     (if should_continue ls then
        (case iteration e ls of Inl x \<Rightarrow> Inl x | Inr ls' \<Rightarrow> run_loop es ls')
      else Inr ls)"

definition run :: "string list \<Rightarrow> env list \<Rightarrow> error \<times> loop_state + loop_state" where
  "run lines es = run_loop es (initial lines)"

section \<open>Example environments\<close>

text \<open>
  Concrete environments for the runs that the theorems below evaluate. In the plain
  one the orchestration agent names the concierge, the continuation agent finds no
  further task, no agent calls a tool, and each agent adds the message and its reply to
  the history it received, in a list of its own: no chat changes the list it was given.
\<close>

definition exchange :: "string \<Rightarrow> string \<Rightarrow> history \<Rightarrow> history" where
  "exchange msg answer h = h @ [(''user'', msg), (''assistant'', answer)]"

definition plain_collab :: collaborators where
  "plain_collab =
     \<lparr>retriever = (\<lambda>arg. Inr []), format_prompt = (\<lambda>context q. context),
      create_query_engine = (\<lambda>prompt. Inr prompt)\<rparr>"

definition plain_env :: env where
  "plain_env =
     \<lparr>continuation_agent = (\<lambda>st h. ''no_further_task''),
      continuation_passed_after = (\<lambda>st h. h),
      orchestration_agent = (\<lambda>st msg h. ''Concierge''),
      orchestration_passed_after = (\<lambda>st msg h. h),
      preprocessing_agent = (\<lambda>st msg h.
        \<lparr>calls = [], reply = ''ok'', memory = exchange msg ''ok'' h,
         passed_after = h, memory_is_passed = False\<rparr>),
      indexing_agent = (\<lambda>st msg h.
        \<lparr>calls = [], reply = ''ok'', memory = exchange msg ''ok'' h,
         passed_after = h, memory_is_passed = False\<rparr>),
      generation_agent = (\<lambda>st msg h.
        \<lparr>calls = [], reply = ''ok'', memory = exchange msg ''ok'' h,
         passed_after = h, memory_is_passed = False\<rparr>),
      concierge_agent = (\<lambda>st msg h.
        \<lparr>calls = [], reply = ''ok'', memory = exchange msg ''ok'' h,
         passed_after = h, memory_is_passed = False\<rparr>),
      memory_get = (\<lambda>h. h),
      collab = plain_collab\<rparr>"

text \<open>
  The orchestration agent names the pre-processing agent, which stores the three
  parameters, processes the documents and calls \<^verbatim>\<open>done\<close> in the same turn.
\<close>

definition preprocessing_env :: env where
  "preprocessing_env =
     plain_env
       \<lparr>orchestration_agent := (\<lambda>st msg h. ''data_pre_processing''),
        preprocessing_agent := (\<lambda>st msg h.
          \<lparr>calls = [Has_input_dir (PStr ''/docs''), Has_chunk_size (PInt 500),
                    Has_chunk_overlap (PInt 50), Process_documents, Preprocessing_done],
           reply = ''saved'', memory = exchange msg ''saved'' h,
           passed_after = h, memory_is_passed = False\<rparr>)\<rparr>"

text \<open>The orchestration agent names the indexing agent, which calls no tool.\<close>

definition indexing_env :: env where
  "indexing_env = plain_env\<lparr>orchestration_agent := (\<lambda>st msg h. ''indexing'')\<rparr>"

text \<open>The state of the loop after one iteration in that environment.\<close>

definition after_indexing :: loop_state where
  "after_indexing =
     \<lparr>state = get_initial_state\<lparr>current_speaker := Some ''indexing''\<rparr>,
      root_memory = [(''user'', ''Hello there!''), (''assistant'', ''ok'')],
      first_run = False, is_retry = False, should_continue = True,
      current_history = Some [], root_is_current = False, stdin = [''hello''],
      trace = [Orchestration_chat get_initial_state ''Hello there!'' [],
               Agent_chat QdrantIndexingAgent get_initial_state ''Hello there!'' []]\<rparr>"

text \<open>
  The orchestration agent names the generation agent, which calls \<^verbatim>\<open>done\<close> with an
  empty string, as its system prompt tells it to when the user asks for something else
  (generation_agent.py, line 134).
\<close>

definition generation_env :: env where
  "generation_env =
     plain_env
       \<lparr>orchestration_agent := (\<lambda>st msg h. ''generation''),
        generation_agent := (\<lambda>st msg h.
          \<lparr>calls = [Done_tool (PStr [])], reply = ''ok'', memory = exchange msg ''ok'' h,
           passed_after = h, memory_is_passed = False\<rparr>)\<rparr>"

text \<open>The orchestration agent answers with a word that names no agent.\<close>

definition banana_env :: env where
  "banana_env = plain_env\<lparr>orchestration_agent := (\<lambda>st msg h. ''banana'')\<rparr>"

text \<open>The orchestration agent answers with a member of \<^verbatim>\<open>Speaker\<close> that has no agent.\<close>

definition retriever_env :: env where
  "retriever_env = plain_env\<lparr>orchestration_agent := (\<lambda>st msg h. ''retriever'')\<rparr>"

text \<open>The continuation agent writes the next request of the user.\<close>

definition continue_env :: env where
  "continue_env = plain_env\<lparr>continuation_agent := (\<lambda>st h. ''index the documents'')\<rparr>"

text \<open>
  Both language models end their answer with a line feed, and the orchestration agent
  starts its answer with a space.
\<close>

definition whitespace_env :: env where
  "whitespace_env =
     plain_env
       \<lparr>continuation_agent := (\<lambda>st h. ''no_further_task'' @ [CHR 0x0A]),
        orchestration_agent := (\<lambda>st msg h. '' Concierge'' @ [CHR 0x0A])\<rparr>"

text \<open>
  The shared dictionary and the state of the loop after one iteration in
  \<^verbatim>\<open>preprocessing_env\<close>, with the line \<^verbatim>\<open>thanks\<close> waiting on standard input.
\<close>

definition processed :: shared_state where
  "processed =
     get_initial_state
       \<lparr>input_dir := PStr ''/docs'', chunk_size := PInt 500, chunk_overlap := PInt 50\<rparr>"

definition after_preprocessing :: loop_state where
  "after_preprocessing =
     \<lparr>state = processed\<lparr>just_finished := True\<rparr>,
      root_memory = [(''user'', ''Hello there!''), (''assistant'', ''saved'')],
      first_run = False, is_retry = False, should_continue = True,
      current_history = Some [], root_is_current = False, stdin = [''thanks''],
      trace = [Orchestration_chat get_initial_state ''Hello there!'' [],
               Agent_chat DocumentPreprocessingAgent get_initial_state ''Hello there!'' []]\<rparr>"

section \<open>Invariants of the loop\<close>

text \<open>
  The only values that the loop and the tools store in \<^verbatim>\<open>current_speaker\<close> are
  \<^verbatim>\<open>None\<close> and the three speakers that lines 254 to 265 dispatch.
\<close>

definition known_speaker :: "shared_state \<Rightarrow> bool" where
  "known_speaker st =
     (current_speaker st = None \<or> current_speaker st = Some ''data_pre_processing''
      \<or> current_speaker st = Some ''indexing'' \<or> current_speaker st = Some ''generation'')"

text \<open>After the first iteration \<^verbatim>\<open>current_history\<close> has a value.\<close>

definition history_bound :: "loop_state \<Rightarrow> bool" where
  "history_bound ls = (first_run ls \<or> current_history ls \<noteq> None)"

text \<open>The speakers that lines 254 to 268 test for.\<close>

definition dispatchable :: "string set" where
  "dispatchable = {''data_pre_processing'', ''indexing'', ''generation'', ''Concierge''}"

text \<open>
  An environment is quiet when no agent of it calls a completion action that reaches the
  shared dictionary: \<^verbatim>\<open>done\<close> of the pre-processing agent and the completion action
  of the indexing agent.
\<close>

definition quiet :: "env \<Rightarrow> bool" where
  "quiet e =
     (\<forall>st msg h. Preprocessing_done \<notin> set (calls (preprocessing_agent e st msg h))
                 \<and> Finish \<notin> set (calls (indexing_agent e st msg h)))"

section \<open>Evaluating the model\<close>

lemmas loop_defs = run_def initial_def get_initial_state_def iteration_def next_utterance_def
  read_user_def input_def next_speaker_def dispatch_def agent_chat_def passed_list_def
  retry_message_def truthy_def Let_def

lemmas tool_defs = has_input_dir_def has_chunk_size_def has_chunk_overlap_def
  preprocessing_done_def generation_done_def generation_def prompt_generation_def

lemmas env_defs = plain_env_def preprocessing_env_def plain_collab_def exchange_def
  indexing_env_def generation_env_def banana_env_def retriever_env_def continue_env_def
  whitespace_env_def

lemma strip_plain [simp]:
  "strip ''indexing'' = ''indexing''"
  "strip ''Concierge'' = ''Concierge''"
  "strip ''data_pre_processing'' = ''data_pre_processing''"
  "strip ''generation'' = ''generation''"
  by (simp_all add: strip_def isspace_def)

lemma strip_lower_hello: "strip ''hello'' = ''hello''" "lower ''hello'' = ''hello''"
  by (simp add: strip_def isspace_def, code_simp)

lemma strip_lower_words:
  "strip ''thanks'' = ''thanks''" "lower ''thanks'' = ''thanks''"
  "strip ''exit'' = ''exit''" "lower ''exit'' = ''exit''"
  "strip ''index the documents'' = ''index the documents''"
  by (simp add: strip_def isspace_def, code_simp, simp add: strip_def isspace_def, code_simp,
      simp add: strip_def isspace_def)

text \<open>
  The calls to the orchestration agent in a log, and the shared dictionary that an
  agent was shown in a call.
\<close>

fun is_orchestration_chat :: "event \<Rightarrow> bool" where
  "is_orchestration_chat (Orchestration_chat st msg h) = True"
| "is_orchestration_chat (Continuation_chat st h) = False"
| "is_orchestration_chat (User_input prompt l) = False"
| "is_orchestration_chat (Agent_chat a st msg h) = False"

definition orchestration_chats :: "event list \<Rightarrow> event list" where
  "orchestration_chats evs = filter is_orchestration_chat evs"

fun event_state :: "event \<Rightarrow> shared_state option" where
  "event_state (Orchestration_chat st msg h) = Some st"
| "event_state (Continuation_chat st h) = Some st"
| "event_state (User_input prompt l) = None"
| "event_state (Agent_chat a st msg h) = Some st"

section \<open>What one iteration keeps\<close>

lemma read_user_fields:
  "read_user p ls = Inr (m, ls1) \<Longrightarrow>
     state ls1 = state ls \<and> root_memory ls1 = root_memory ls \<and> first_run ls1 = first_run ls
     \<and> is_retry ls1 = is_retry ls \<and> current_history ls1 = current_history ls
     \<and> root_is_current ls1 = root_is_current ls
     \<and> (\<exists>l. trace ls1 = trace ls @ [User_input p (Some l)] \<and> m = strip l)"
  by (auto simp: read_user_def input_def Let_def split: list.splits if_splits)

lemma next_utterance_fields:
  assumes "next_utterance e ls = Inr (m, ls1)"
  shows "current_speaker (state ls1) = current_speaker (state ls)"
    and "\<not> first_run ls1"
  using assms
  by (auto simp: next_utterance_def Let_def split: if_splits option.splits sum.splits prod.splits
      dest!: read_user_fields)

lemma next_utterance_orchestration_chats:
  assumes "next_utterance e ls = Inr (m, ls1)"
  shows "orchestration_chats (trace ls1) = orchestration_chats (trace ls)"
  using assms
  by (auto simp: next_utterance_def orchestration_chats_def Let_def
      split: if_splits option.splits sum.splits prod.splits dest!: read_user_fields)

lemma next_speaker_fields:
  assumes "next_speaker e m h ls = (s, ls')"
  shows "state ls' = state ls" and "first_run ls' = first_run ls"
    and "current_history ls \<noteq> None \<Longrightarrow> current_history ls' \<noteq> None"
  using assms by (auto simp: next_speaker_def Let_def split: option.splits if_splits)

text \<open>The iteration once the message and the speaker are known.\<close>

lemma iteration_unfold:
  assumes nu: "next_utterance e ls = Inr (m, ls1)"
    and ns: "next_speaker e m (memory_get e (root_memory ls1))
               (ls1\<lparr>current_history := Some (memory_get e (root_memory ls1)),
                    root_is_current := False\<rparr>) = (s, ls3)"
  shows "\<exists>h1. current_history ls3 = Some h1 \<and> state ls3 = state ls1 \<and> \<not> first_run ls3
     \<and> iteration e ls =
        (case dispatch s (state ls1) of
           None \<Rightarrow> Inr (ls3\<lparr>is_retry := True\<rparr>)
         | Some (a, st) \<Rightarrow>
             Inr (ls3\<lparr>state := fst (agent_chat e a (state ls1) m h1 st),
                      root_memory := snd (snd (agent_chat e a (state ls1) m h1 st)),
                      current_history := Some (fst (passed_list e a (state ls1) m h1)),
                      root_is_current := snd (passed_list e a (state ls1) m h1),
                      trace := trace ls3 @ [Agent_chat a (state ls1) m h1]\<rparr>))"
proof -
  have st3: "state ls3 = state ls1" and f3: "\<not> first_run ls3"
    using next_speaker_fields(1,2)[OF ns] next_utterance_fields(2)[OF nu] by simp_all
  have "current_history ls3 \<noteq> None" using next_speaker_fields(3)[OF ns] by simp
  then obtain h1 where h1: "current_history ls3 = Some h1" by auto
  have "iteration e ls =
        (case dispatch s (state ls1) of
           None \<Rightarrow> Inr (ls3\<lparr>is_retry := True\<rparr>)
         | Some (a, st) \<Rightarrow>
             Inr (ls3\<lparr>state := fst (agent_chat e a (state ls1) m h1 st),
                      root_memory := snd (snd (agent_chat e a (state ls1) m h1 st)),
                      current_history := Some (fst (passed_list e a (state ls1) m h1)),
                      root_is_current := snd (passed_list e a (state ls1) m h1),
                      trace := trace ls3 @ [Agent_chat a (state ls1) m h1]\<rparr>))"
    using nu ns st3 h1
    by (auto simp: iteration_def Let_def split: option.splits prod.splits)
  then show ?thesis using h1 st3 f3 by blast
qed

lemma iteration_utterance:
  "iteration e ls = Inr ls' \<Longrightarrow> \<exists>m ls1. next_utterance e ls = Inr (m, ls1)"
  by (auto simp: iteration_def split: sum.splits)

lemma iteration_returns:
  assumes nu: "next_utterance e ls = Inr (m, ls1)"
  shows "\<exists>ls'. iteration e ls = Inr ls'"
proof -
  obtain s ls3 where ns: "next_speaker e m (memory_get e (root_memory ls1))
               (ls1\<lparr>current_history := Some (memory_get e (root_memory ls1)),
                    root_is_current := False\<rparr>) = (s, ls3)"
    by (meson surj_pair)
  from iteration_unfold[OF nu ns] show ?thesis
    by (auto split: option.splits)
qed

lemma preprocessing_calls_known:
  "known_speaker st \<Longrightarrow> known_speaker (foldl (\<lambda>s c. preprocessing_call_effect c s) st cs)"
proof (induction cs arbitrary: st)
  case Nil
  then show ?case by simp
next
  case (Cons c cs)
  have "known_speaker (preprocessing_call_effect c st)"
    using Cons.prems
    by (cases c) (simp_all add: known_speaker_def has_input_dir_def has_chunk_size_def
        has_chunk_overlap_def preprocessing_done_def)
  then show ?case using Cons.IH by simp
qed

lemma indexing_calls_known:
  "known_speaker st \<Longrightarrow> known_speaker (foldl (\<lambda>s c. indexing_call_effect c s) st cs)"
proof (induction cs arbitrary: st)
  case Nil
  then show ?case by simp
next
  case (Cons c cs)
  have "known_speaker (indexing_call_effect c st)"
    using Cons.prems by (cases c) (simp_all add: known_speaker_def)
  then show ?case using Cons.IH by simp
qed

lemma generation_tool_call_state: "fst (generation_tool_call c g st) = st"
  by (cases g) simp_all

lemma generation_calls_state:
  "foldl (\<lambda>s g. fst (generation_tool_call c g s)) st gs = st"
  by (induction gs) (simp_all add: generation_tool_call_state)

lemma agent_chat_known:
  "known_speaker st \<Longrightarrow> known_speaker (fst (agent_chat e a b m h st))"
  by (cases a)
     (simp_all add: agent_chat_def Let_def preprocessing_calls_known indexing_calls_known
        generation_calls_state)

lemma dispatch_known:
  "dispatch s st = Some (a, st') \<Longrightarrow> known_speaker st \<Longrightarrow> known_speaker st'"
  by (auto simp: dispatch_def known_speaker_def split: if_splits)

lemma iteration_known:
  assumes it: "iteration e ls = Inr ls'" and k: "known_speaker (state ls)"
  shows "known_speaker (state ls')"
proof -
  from iteration_utterance[OF it] obtain m ls1 where nu: "next_utterance e ls = Inr (m, ls1)"
    by blast
  have k1: "known_speaker (state ls1)"
    using next_utterance_fields(1)[OF nu] k by (simp add: known_speaker_def)
  obtain s ls3 where ns: "next_speaker e m (memory_get e (root_memory ls1))
               (ls1\<lparr>current_history := Some (memory_get e (root_memory ls1)),
                    root_is_current := False\<rparr>) = (s, ls3)"
    by (meson surj_pair)
  from iteration_unfold[OF nu ns] obtain h1 where
    st3: "state ls3 = state ls1" and
    eq: "iteration e ls =
        (case dispatch s (state ls1) of
           None \<Rightarrow> Inr (ls3\<lparr>is_retry := True\<rparr>)
         | Some (a, st) \<Rightarrow>
             Inr (ls3\<lparr>state := fst (agent_chat e a (state ls1) m h1 st),
                      root_memory := snd (snd (agent_chat e a (state ls1) m h1 st)),
                      current_history := Some (fst (passed_list e a (state ls1) m h1)),
                      root_is_current := snd (passed_list e a (state ls1) m h1),
                      trace := trace ls3 @ [Agent_chat a (state ls1) m h1]\<rparr>))"
    by blast
  show ?thesis
  proof (cases "dispatch s (state ls1)")
    case None
    then show ?thesis using eq it st3 k1 by auto
  next
    case (Some p)
    obtain a st where p: "p = (a, st)" by (cases p)
    have kst: "known_speaker st" using dispatch_known Some p k1 by metis
    have "state ls' = fst (agent_chat e a (state ls1) m h1 st)"
      using eq it Some p by auto
    then show ?thesis using agent_chat_known[OF kst] by simp
  qed
qed

lemma run_loop_known:
  "run_loop es ls = Inr ls' \<Longrightarrow> known_speaker (state ls) \<Longrightarrow> known_speaker (state ls')"
proof (induction es arbitrary: ls)
  case Nil
  then show ?case by simp
next
  case (Cons e es)
  show ?case
  proof (cases "should_continue ls")
    case False
    then show ?thesis using Cons.prems by simp
  next
    case True
    then obtain l1 where it: "iteration e ls = Inr l1" and rest: "run_loop es l1 = Inr ls'"
      using Cons.prems(1) by (auto split: sum.splits)
    show ?thesis using Cons.IH[OF rest] iteration_known[OF it Cons.prems(2)] by simp
  qed
qed

lemma run_known: "run lines es = Inr ls \<Longrightarrow> known_speaker (state ls)"
  unfolding run_def
  by (erule run_loop_known) (simp add: initial_def get_initial_state_def known_speaker_def)

lemma dispatch_None: "(dispatch s st = None) = (s \<notin> dispatchable)"
  by (simp add: dispatch_def dispatchable_def)

text \<open>The iteration when the orchestration agent is asked.\<close>

lemma iteration_asks_orchestrator:
  assumes nu: "next_utterance e ls = Inr (msg, ls1)"
    and ask: "\<not> truthy (current_speaker (state ls1))"
  shows "iteration e ls =
     (let h = memory_get e (root_memory ls1);
          h1 = orchestration_passed_after e (state ls1) msg h;
          ls3 = ls1\<lparr>current_history := Some h1, root_is_current := False,
                    trace := trace ls1 @ [Orchestration_chat (state ls1) msg h]\<rparr>
      in case dispatch (strip (orchestration_agent e (state ls1) msg h)) (state ls1) of
           None \<Rightarrow> Inr (ls3\<lparr>is_retry := True\<rparr>)
         | Some (a, st) \<Rightarrow>
             Inr (ls3\<lparr>state := fst (agent_chat e a (state ls1) msg h1 st),
                      root_memory := snd (snd (agent_chat e a (state ls1) msg h1 st)),
                      current_history := Some (fst (passed_list e a (state ls1) msg h1)),
                      root_is_current := snd (passed_list e a (state ls1) msg h1),
                      trace := trace ls3 @ [Agent_chat a (state ls1) msg h1]\<rparr>))"
  using ask
  by (auto simp: iteration_def nu next_speaker_def truthy_def Let_def
      split: option.splits prod.splits)

text \<open>The iteration when a speaker holds the floor.\<close>

lemma iteration_sticky:
  assumes nu: "next_utterance e ls = Inr (msg, ls1)"
    and cs: "current_speaker (state ls1) = Some s" and ne: "s \<noteq> []"
  shows "iteration e ls =
     (let h = memory_get e (root_memory ls1);
          ls2 = ls1\<lparr>current_history := Some h, root_is_current := False\<rparr>
      in case dispatch s (state ls1) of
           None \<Rightarrow> Inr (ls2\<lparr>is_retry := True\<rparr>)
         | Some (a, st) \<Rightarrow>
             Inr (ls2\<lparr>state := fst (agent_chat e a (state ls1) msg h st),
                      root_memory := snd (snd (agent_chat e a (state ls1) msg h st)),
                      current_history := Some (fst (passed_list e a (state ls1) msg h)),
                      root_is_current := snd (passed_list e a (state ls1) msg h),
                      trace := trace ls1 @ [Agent_chat a (state ls1) msg h]\<rparr>))"
  using cs ne
  by (auto simp: iteration_def nu next_speaker_def Let_def split: option.splits prod.splits)

lemma retry_then_asks:
  assumes r: "is_retry ls" and nf: "\<not> first_run ls" and ask: "\<not> truthy (current_speaker (state ls))"
  shows "\<exists>ls'. iteration e ls = Inr ls' \<and> stdin ls' = stdin ls
     \<and> (\<exists>rest. trace ls' = trace ls @
           Orchestration_chat (state ls) retry_message (memory_get e (root_memory ls)) # rest)"
proof -
  have nu: "next_utterance e ls = Inr (retry_message, ls\<lparr>is_retry := False\<rparr>)"
    using r nf by (simp add: next_utterance_def)
  have ask': "\<not> truthy (current_speaker (state (ls\<lparr>is_retry := False\<rparr>)))" using ask by simp
  show ?thesis
    unfolding iteration_asks_orchestrator[OF nu ask']
    by (auto simp: Let_def split: option.splits)
qed

lemma iteration_history_bound:
  assumes it: "iteration e ls = Inr ls'"
  shows "\<not> first_run ls' \<and> current_history ls' \<noteq> None"
proof -
  from iteration_utterance[OF it] obtain m ls1 where nu: "next_utterance e ls = Inr (m, ls1)"
    by blast
  obtain s ls3 where ns: "next_speaker e m (memory_get e (root_memory ls1))
               (ls1\<lparr>current_history := Some (memory_get e (root_memory ls1)),
                    root_is_current := False\<rparr>) = (s, ls3)"
    by (meson surj_pair)
  from iteration_unfold[OF nu ns] it show ?thesis
    by (auto split: option.splits)
qed

lemma run_loop_history_bound:
  "run_loop es ls = Inr ls' \<Longrightarrow> history_bound ls \<Longrightarrow> history_bound ls'"
proof (induction es arbitrary: ls)
  case Nil
  then show ?case by simp
next
  case (Cons e es)
  show ?case
  proof (cases "should_continue ls")
    case False
    then show ?thesis using Cons.prems by simp
  next
    case True
    then obtain l1 where it: "iteration e ls = Inr l1" and rest: "run_loop es l1 = Inr ls'"
      using Cons.prems(1) by (auto split: sum.splits)
    have "history_bound l1" using iteration_history_bound[OF it] by (simp add: history_bound_def)
    then show ?thesis using Cons.IH[OF rest] by simp
  qed
qed

lemma run_history_bound: "run lines es = Inr ls \<Longrightarrow> history_bound ls"
  unfolding run_def
  by (erule run_loop_history_bound) (simp add: initial_def history_bound_def)

lemma preprocessing_calls_quiet:
  "Preprocessing_done \<notin> set cs \<Longrightarrow>
     just_finished (foldl (\<lambda>s c. preprocessing_call_effect c s) st cs) = just_finished st
     \<and> current_speaker (foldl (\<lambda>s c. preprocessing_call_effect c s) st cs) = current_speaker st"
proof (induction cs arbitrary: st)
  case Nil
  then show ?case by simp
next
  case (Cons c cs)
  have "just_finished (preprocessing_call_effect c st) = just_finished st
      \<and> current_speaker (preprocessing_call_effect c st) = current_speaker st"
    using Cons.prems
    by (cases c) (simp_all add: has_input_dir_def has_chunk_size_def has_chunk_overlap_def)
  then show ?case using Cons.IH[of "preprocessing_call_effect c st"] Cons.prems by simp
qed

lemma indexing_calls_quiet:
  "Finish \<notin> set cs \<Longrightarrow>
     just_finished (foldl (\<lambda>s c. indexing_call_effect c s) st cs) = just_finished st
     \<and> current_speaker (foldl (\<lambda>s c. indexing_call_effect c s) st cs) = current_speaker st"
proof (induction cs arbitrary: st)
  case Nil
  then show ?case by simp
next
  case (Cons c cs)
  have "just_finished (indexing_call_effect c st) = just_finished st
      \<and> current_speaker (indexing_call_effect c st) = current_speaker st"
    using Cons.prems by (cases c) simp_all
  then show ?case using Cons.IH[of "indexing_call_effect c st"] Cons.prems by simp
qed

lemma agent_chat_quiet:
  "quiet e \<Longrightarrow> just_finished (fst (agent_chat e a b m h st)) = just_finished st
     \<and> current_speaker (fst (agent_chat e a b m h st)) = current_speaker st"
  by (cases a)
     (simp_all add: agent_chat_def Let_def quiet_def preprocessing_calls_quiet
        indexing_calls_quiet generation_calls_state)

lemma agent_chat_concierge: "fst (agent_chat e ConciergeAgent b m h st) = st"
  by (simp add: agent_chat_def Let_def)

lemma dispatch_just_finished:
  "dispatch s st = Some (a, st') \<Longrightarrow> just_finished st' = just_finished st"
  by (auto simp: dispatch_def split: if_splits)

text \<open>
  What an iteration adds to the log after the message of the turn: a call to the
  orchestration agent, a call to the dispatched agent, or the first and then the second,
  each on the shared dictionary as it was when the message was there.
\<close>

lemma iteration_events:
  assumes nu: "next_utterance e ls = Inr (m, ls1)" and k: "known_speaker (state ls1)"
  shows "\<exists>ls' rest. iteration e ls = Inr ls' \<and> trace ls' = trace ls1 @ rest \<and> rest \<noteq> []
     \<and> list_all (\<lambda>ev. event_state ev = Some (state ls1)) rest"
proof (cases "truthy (current_speaker (state ls1))")
  case False
  show ?thesis
    unfolding iteration_asks_orchestrator[OF nu False]
    by (auto simp: Let_def split: option.splits)
next
  case True
  then obtain sp where cs: "current_speaker (state ls1) = Some sp" and ne: "sp \<noteq> []"
    by (auto simp: truthy_def split: option.splits)
  have "dispatch sp (state ls1) \<noteq> None"
    using k cs by (auto simp: known_speaker_def dispatch_def)
  then show ?thesis
    unfolding iteration_sticky[OF nu cs ne]
    by (auto simp: Let_def split: option.splits)
qed

lemma iteration_after_utterance_quiet:
  assumes it: "iteration e ls = Inr ls'" and nu: "next_utterance e ls = Inr (m, ls1)"
    and q: "quiet e" and nj: "\<not> just_finished (state ls1)"
  shows "\<not> just_finished (state ls')"
proof -
  obtain s ls3 where ns: "next_speaker e m (memory_get e (root_memory ls1))
               (ls1\<lparr>current_history := Some (memory_get e (root_memory ls1)),
                    root_is_current := False\<rparr>) = (s, ls3)"
    by (meson surj_pair)
  from iteration_unfold[OF nu ns] obtain h1 where
    st3: "state ls3 = state ls1" and
    eq: "iteration e ls =
        (case dispatch s (state ls1) of
           None \<Rightarrow> Inr (ls3\<lparr>is_retry := True\<rparr>)
         | Some (a, st) \<Rightarrow>
             Inr (ls3\<lparr>state := fst (agent_chat e a (state ls1) m h1 st),
                      root_memory := snd (snd (agent_chat e a (state ls1) m h1 st)),
                      current_history := Some (fst (passed_list e a (state ls1) m h1)),
                      root_is_current := snd (passed_list e a (state ls1) m h1),
                      trace := trace ls3 @ [Agent_chat a (state ls1) m h1]\<rparr>))"
    by blast
  show ?thesis
  proof (cases "dispatch s (state ls1)")
    case None
    then show ?thesis using eq it st3 nj by auto
  next
    case (Some p)
    obtain a st where p: "p = (a, st)" by (cases p)
    have "\<not> just_finished st" using dispatch_just_finished Some p nj by metis
    moreover have "state ls' = fst (agent_chat e a (state ls1) m h1 st)"
      using eq it Some p by auto
    ultimately show ?thesis using agent_chat_quiet[OF q] by simp
  qed
qed

lemma next_utterance_just_finished:
  "next_utterance e ls = Inr (m, ls1) \<Longrightarrow> \<not> just_finished (state ls) \<Longrightarrow> \<not> just_finished (state ls1)"
  by (auto simp: next_utterance_def Let_def split: if_splits dest!: read_user_fields)

lemma iteration_quiet:
  assumes it: "iteration e ls = Inr ls'" and q: "quiet e" and nj: "\<not> just_finished (state ls)"
  shows "\<not> just_finished (state ls')"
proof -
  from iteration_utterance[OF it] obtain m ls1 where nu: "next_utterance e ls = Inr (m, ls1)"
    by blast
  show ?thesis
    using iteration_after_utterance_quiet[OF it nu q] next_utterance_just_finished[OF nu nj]
    by simp
qed

lemma run_loop_quiet:
  "run_loop es ls = Inr ls' \<Longrightarrow> \<forall>e \<in> set es. quiet e \<Longrightarrow> \<not> just_finished (state ls) \<Longrightarrow>
     \<not> just_finished (state ls')"
proof (induction es arbitrary: ls)
  case Nil
  then show ?case by simp
next
  case (Cons e es)
  show ?case
  proof (cases "should_continue ls")
    case False
    then show ?thesis using Cons.prems by simp
  next
    case True
    then obtain l1 where it: "iteration e ls = Inr l1" and rest: "run_loop es l1 = Inr ls'"
      using Cons.prems(1) by (auto split: sum.splits)
    have "\<not> just_finished (state l1)"
      using iteration_quiet[OF it] Cons.prems(2,3) by simp
    then show ?thesis using Cons.IH[OF rest] Cons.prems(2) by simp
  qed
qed

lemma continuation_first:
  assumes jf: "just_finished (state ls)" and nf: "\<not> first_run ls" and nr: "\<not> is_retry ls"
    and h: "current_history ls = Some h"
  shows "case next_utterance e ls of
           Inl (err, ls1) \<Rightarrow>
             err = EOFError \<and> continuation_agent e (state ls) h = ''no_further_task''
             \<and> trace ls1 = trace ls @ [Continuation_chat (state ls) h, User_input ''>> '' None]
         | Inr (msg, ls1) \<Rightarrow>
             \<not> just_finished (state ls1)
             \<and> (if continuation_agent e (state ls) h = ''no_further_task''
                 then \<exists>l. trace ls1 = trace ls @ [Continuation_chat (state ls) h, User_input ''>> '' (Some l)]
                        \<and> msg = strip l
                 else trace ls1 = trace ls @ [Continuation_chat (state ls) h]
                        \<and> msg = continuation_agent e (state ls) h \<and> stdin ls1 = stdin ls)"
  using assms
  by (auto simp: next_utterance_def read_user_def input_def Let_def
      split: list.splits sum.splits prod.splits)

lemma run_loop_single:
  "run_loop [e] ls = (if should_continue ls then iteration e ls else Inr ls)"
  by (simp split: sum.splits)

lemma preprocessing_calls_speaker:
  "current_speaker (foldl (\<lambda>s c. preprocessing_call_effect c s) st cs) = current_speaker st
   \<or> current_speaker (foldl (\<lambda>s c. preprocessing_call_effect c s) st cs) = None"
proof (induction cs arbitrary: st)
  case Nil
  then show ?case by simp
next
  case (Cons c cs)
  have "current_speaker (preprocessing_call_effect c st) = current_speaker st
      \<or> current_speaker (preprocessing_call_effect c st) = None"
    by (cases c) (simp_all add: has_input_dir_def has_chunk_size_def has_chunk_overlap_def
        preprocessing_done_def)
  then show ?case using Cons.IH[of "preprocessing_call_effect c st"] by auto
qed

lemma indexing_calls_speaker:
  "current_speaker (foldl (\<lambda>s c. indexing_call_effect c s) st cs) = current_speaker st
   \<or> current_speaker (foldl (\<lambda>s c. indexing_call_effect c s) st cs) = None"
proof (induction cs arbitrary: st)
  case Nil
  then show ?case by simp
next
  case (Cons c cs)
  have "current_speaker (indexing_call_effect c st) = current_speaker st
      \<or> current_speaker (indexing_call_effect c st) = None"
    by (cases c) simp_all
  then show ?case using Cons.IH[of "indexing_call_effect c st"] by auto
qed

lemma agent_chat_speaker:
  "current_speaker (fst (agent_chat e a b m h st)) = current_speaker st
   \<or> current_speaker (fst (agent_chat e a b m h st)) = None"
  by (cases a)
     (simp_all add: agent_chat_def Let_def preprocessing_calls_speaker indexing_calls_speaker
        generation_calls_state)

lemma continuation_state:
  assumes jf: "just_finished (state ls)" and nf: "\<not> first_run ls" and nr: "\<not> is_retry ls"
    and nu: "next_utterance e ls = Inr (msg, ls1)"
  shows "state ls1 = (state ls)\<lparr>just_finished := False\<rparr>"
  using assms
  by (auto simp: next_utterance_def read_user_def input_def Let_def
      split: list.splits sum.splits prod.splits option.splits if_splits)

lemma continuation_inputs:
  assumes jf: "just_finished (state ls)" and nf: "\<not> first_run ls" and nr: "\<not> is_retry ls"
    and h: "current_history ls = Some h"
    and nu: "next_utterance e ls = Inr (msg, ls1)"
  shows "\<exists>inputs. trace ls1 = trace ls @ Continuation_chat (state ls) h # inputs
     \<and> list_all (\<lambda>ev. event_state ev = None) inputs"
  using assms
  by (auto simp: next_utterance_def read_user_def input_def Let_def
      split: list.splits sum.splits prod.splits option.splits if_splits)

section \<open>Runs that the theorems evaluate\<close>

lemma run_indexing: "run [''hello''] [indexing_env] = Inr after_indexing"
  by (simp add: loop_defs env_defs after_indexing_def)

lemma next_utterance_after_indexing:
  "next_utterance plain_env after_indexing =
     Inr (''hello'', after_indexing\<lparr>stdin := [],
            trace := trace after_indexing @ [User_input ''> '' (Some ''hello'')]\<rparr>)"
  by (simp add: loop_defs after_indexing_def strip_lower_hello)

lemma run_preprocessing: "run [''thanks''] [preprocessing_env] = Inr after_preprocessing"
  by (simp add: loop_defs env_defs tool_defs after_preprocessing_def processed_def)

lemma after_preprocessing_flags:
  "just_finished (state after_preprocessing)" "\<not> first_run after_preprocessing"
  "\<not> is_retry after_preprocessing"
  by (simp_all add: after_preprocessing_def)

lemma continue_then_plain:
  "\<exists>ls' ls''. iteration continue_env after_preprocessing = Inr ls'
      \<and> run_loop [plain_env] ls' = Inr ls'' \<and> stdin ls'' = []"
  by (simp add: loop_defs env_defs after_preprocessing_def processed_def strip_lower_words)

lemma quiet_plain: "quiet plain_env" "quiet continue_env"
  by (simp_all add: quiet_def env_defs)

lemma banana_utterance:
  "next_utterance banana_env (initial []) = Inr (''Hello there!'', (initial [])\<lparr>first_run := False\<rparr>)"
  by (simp add: next_utterance_def initial_def)

lemma banana_asks: "\<not> truthy (current_speaker (state ((initial [])\<lparr>first_run := False\<rparr>)))"
  by (simp add: truthy_def initial_def get_initial_state_def)

lemma banana_invalid:
  "strip (orchestration_agent banana_env (state ((initial [])\<lparr>first_run := False\<rparr>)) ''Hello there!''
      (memory_get banana_env (root_memory ((initial [])\<lparr>first_run := False\<rparr>)))) \<notin> dispatchable"
  by (simp add: banana_env_def plain_env_def dispatchable_def strip_def isspace_def)

lemma retriever_utterance:
  "next_utterance retriever_env (initial []) = Inr (''Hello there!'', (initial [])\<lparr>first_run := False\<rparr>)"
  by (simp add: next_utterance_def initial_def)

lemma indexing_utterance:
  "next_utterance indexing_env (initial []) = Inr (''Hello there!'', (initial [])\<lparr>first_run := False\<rparr>)"
  by (simp add: next_utterance_def initial_def)

lemma initial_no_speaker: "current_speaker (state ((initial [])\<lparr>first_run := False\<rparr>)) = None"
  by (simp add: initial_def get_initial_state_def)

lemma quiet_indexing: "quiet indexing_env"
  by (simp add: quiet_def env_defs)

lemma indexing_answer:
  "strip (orchestration_agent indexing_env get_initial_state ''Hello there!'' []) = ''indexing''"
  "strip (orchestration_agent retriever_env get_initial_state ''Hello there!'' []) = ''retriever''"
  by (simp_all add: env_defs strip_def isspace_def)

section \<open>The sticky speaker\<close>

text \<open>
  Claim C1. In every iteration of \<^verbatim>\<open>run\<close>, whatever the language models answered
  before: when \<^verbatim>\<open>state["current_speaker"]\<close> is not \<^verbatim>\<open>None\<close> at line 244, the next
  speaker is that value, the iteration lets the agent of that speaker chat as the only
  thing it does after the message is there, and the calls to the orchestration agent in
  the log of the loop are those that were there before the iteration. When it is
  \<^verbatim>\<open>None\<close>, the stripped answer of the orchestration agent is the next speaker, and
  the iteration adds exactly one call to the orchestration agent to the log. Line 244
  tests the truth of the value, which differs from the test against \<^verbatim>\<open>None\<close> on the
  empty string only, and the loop never stores the empty string.
\<close>

theorem sticky_speaker_resolution:
  assumes reach: "run lines es = Inr ls"
    and nu: "next_utterance e ls = Inr (msg, ls1)"
  shows "let h = memory_get e (root_memory ls1);
             ls2 = ls1\<lparr>current_history := Some h, root_is_current := False\<rparr>
         in (\<forall>s. current_speaker (state ls1) = Some s \<longrightarrow>
               next_speaker e msg h ls2 = (s, ls2)
               \<and> (\<exists>a st ls'. dispatch s (state ls1) = Some (a, st) \<and> iteration e ls = Inr ls'
                     \<and> run_loop [e] ls = Inr (if should_continue ls then ls' else ls)
                     \<and> trace ls' = trace ls1 @ [Agent_chat a (state ls1) msg h]
                     \<and> orchestration_chats (trace ls') = orchestration_chats (trace ls)))
          \<and> (current_speaker (state ls1) = None \<longrightarrow>
               next_speaker e msg h ls2 =
                 (strip (orchestration_agent e (state ls1) msg h),
                  ls2\<lparr>trace := trace ls1 @ [Orchestration_chat (state ls1) msg h],
                      current_history := Some (orchestration_passed_after e (state ls1) msg h)\<rparr>)
               \<and> (\<exists>ls' rest. iteration e ls = Inr ls'
                     \<and> run_loop [e] ls = Inr (if should_continue ls then ls' else ls)
                     \<and> trace ls' = trace ls1 @ Orchestration_chat (state ls1) msg h # rest
                     \<and> orchestration_chats (trace ls') =
                         orchestration_chats (trace ls) @ [Orchestration_chat (state ls1) msg h]))"
proof -
  define h where "h = memory_get e (root_memory ls1)"
  define ls2 where "ls2 = ls1\<lparr>current_history := Some h, root_is_current := False\<rparr>"
  have "known_speaker (state ls)" using reach by (rule run_known)
  then have k: "known_speaker (state ls1)"
    using next_utterance_fields(1)[OF nu] by (simp add: known_speaker_def)
  have oc: "orchestration_chats (trace ls1) = orchestration_chats (trace ls)"
    using nu by (rule next_utterance_orchestration_chats)
  have sticky: "next_speaker e msg h ls2 = (s, ls2)
               \<and> (\<exists>a st ls'. dispatch s (state ls1) = Some (a, st) \<and> iteration e ls = Inr ls'
                     \<and> run_loop [e] ls = Inr (if should_continue ls then ls' else ls)
                     \<and> trace ls' = trace ls1 @ [Agent_chat a (state ls1) msg h]
                     \<and> orchestration_chats (trace ls') = orchestration_chats (trace ls))"
    if cs: "current_speaker (state ls1) = Some s" for s
  proof -
    have ne: "s \<noteq> []" using k cs by (auto simp: known_speaker_def)
    have a: "next_speaker e msg h ls2 = (s, ls2)"
      using cs ne by (simp add: next_speaker_def ls2_def)
    obtain ag st where d: "dispatch s (state ls1) = Some (ag, st)"
      using k cs by (auto simp: known_speaker_def dispatch_def)
    obtain ls' where it: "iteration e ls = Inr ls'"
      and tr: "trace ls' = trace ls1 @ [Agent_chat ag (state ls1) msg h]"
      unfolding iteration_sticky[OF nu cs ne] using d by (simp add: Let_def h_def)
    have "orchestration_chats (trace ls') = orchestration_chats (trace ls)"
      using tr oc by (simp add: orchestration_chats_def)
    moreover have "run_loop [e] ls = Inr (if should_continue ls then ls' else ls)"
      using it by (simp add: run_loop_single)
    ultimately show ?thesis using a d it tr by blast
  qed
  have asked: "next_speaker e msg h ls2 =
                 (strip (orchestration_agent e (state ls1) msg h),
                  ls2\<lparr>trace := trace ls1 @ [Orchestration_chat (state ls1) msg h],
                      current_history := Some (orchestration_passed_after e (state ls1) msg h)\<rparr>)
               \<and> (\<exists>ls' rest. iteration e ls = Inr ls'
                     \<and> run_loop [e] ls = Inr (if should_continue ls then ls' else ls)
                     \<and> trace ls' = trace ls1 @ Orchestration_chat (state ls1) msg h # rest
                     \<and> orchestration_chats (trace ls') =
                         orchestration_chats (trace ls) @ [Orchestration_chat (state ls1) msg h])"
    if cs: "current_speaker (state ls1) = None"
  proof -
    have ask: "\<not> truthy (current_speaker (state ls1))" using cs by (simp add: truthy_def)
    have a: "next_speaker e msg h ls2 =
                 (strip (orchestration_agent e (state ls1) msg h),
                  ls2\<lparr>trace := trace ls1 @ [Orchestration_chat (state ls1) msg h],
                      current_history := Some (orchestration_passed_after e (state ls1) msg h)\<rparr>)"
      using cs by (simp add: next_speaker_def ls2_def)
    have "\<exists>ls' rest. iteration e ls = Inr ls'
        \<and> trace ls' = trace ls1 @ Orchestration_chat (state ls1) msg h # rest
        \<and> orchestration_chats (trace ls') =
             orchestration_chats (trace ls1) @ [Orchestration_chat (state ls1) msg h]"
      unfolding iteration_asks_orchestrator[OF nu ask]
      by (auto simp: Let_def h_def orchestration_chats_def split: option.splits)
    then obtain ls' rest where it: "iteration e ls = Inr ls'"
      and tr: "trace ls' = trace ls1 @ Orchestration_chat (state ls1) msg h # rest"
      and o: "orchestration_chats (trace ls') =
             orchestration_chats (trace ls1) @ [Orchestration_chat (state ls1) msg h]"
      by blast
    have "run_loop [e] ls = Inr (if should_continue ls then ls' else ls)"
      using it by (simp add: run_loop_single)
    then show ?thesis using a it tr o oc by auto
  qed
  show ?thesis
    unfolding Let_def h_def[symmetric] ls2_def[symmetric] using sticky asked by blast
qed

theorem sticky_speaker_resolution_witness:
  "run [''hello''] [indexing_env] = Inr after_indexing
   \<and> current_speaker (state after_indexing) = Some ''indexing''
   \<and> fst (next_speaker plain_env ''hello'' (root_memory after_indexing)
       (after_indexing\<lparr>stdin := [],
          trace := trace after_indexing @ [User_input ''> '' (Some ''hello'')],
          current_history := Some (root_memory after_indexing)\<rparr>)) = ''indexing''
   \<and> (\<exists>ls'. iteration plain_env after_indexing = Inr ls'
         \<and> trace ls' = trace after_indexing @
              [User_input ''> '' (Some ''hello''),
               Agent_chat QdrantIndexingAgent (state after_indexing) ''hello''
                 (root_memory after_indexing)]
         \<and> orchestration_chats (trace ls') = orchestration_chats (trace after_indexing))"
  using sticky_speaker_resolution[OF run_indexing next_utterance_after_indexing] run_indexing
  by (auto simp: Let_def plain_env_def after_indexing_def dispatch_def)

section \<open>The exit command\<close>

text \<open>
  Claim C2. A line \<^verbatim>\<open>exit\<close> at a direct-input point should end the loop there, with
  no routing decision and no agent for that line. The run below reads \<^verbatim>\<open>exit\<close> in
  its second iteration: line 240 clears \<^verbatim>\<open>should_continue\<close>, and the rest of the body
  still runs, so the orchestration agent is asked about the message \<^verbatim>\<open>exit\<close>, the
  concierge agent chats on it and its memory is adopted. The loop stops only at the
  next test of its condition: the third environment is not used.
\<close>

theorem exit_is_routed_and_dispatched:
  "run [''exit''] [plain_env, plain_env, plain_env] =
     Inr \<lparr>state = get_initial_state,
          root_memory = [(''user'', ''Hello there!''), (''assistant'', ''ok''),
                         (''user'', ''exit''), (''assistant'', ''ok'')],
          first_run = False, is_retry = False, should_continue = False,
          current_history = Some [(''user'', ''Hello there!''), (''assistant'', ''ok'')],
          root_is_current = False, stdin = [],
          trace = [Orchestration_chat get_initial_state ''Hello there!'' [],
                   Agent_chat ConciergeAgent get_initial_state ''Hello there!'' [],
                   User_input ''> '' (Some ''exit''),
                   Orchestration_chat get_initial_state ''exit''
                     [(''user'', ''Hello there!''), (''assistant'', ''ok'')],
                   Agent_chat ConciergeAgent get_initial_state ''exit''
                     [(''user'', ''Hello there!''), (''assistant'', ''ok'')]]\<rparr>"
  by (simp add: loop_defs env_defs strip_lower_words)

section \<open>The retry edge\<close>

text \<open>
  Claim C3. When the orchestration agent is asked and its stripped answer is none of the
  four dispatchable speakers, the iteration ends with \<^verbatim>\<open>is_retry\<close> set: the shared
  dictionary, standard input and the memory are as they were when the agent was asked,
  and no agent has chatted. Whatever the models answer in the next iteration, it reads
  no input, and the first thing it does is to ask the orchestration agent with the fixed
  message on the same shared dictionary. The loop runs that iteration unless the
  message of this one was \<^verbatim>\<open>exit\<close>.
\<close>

theorem retry_edge:
  assumes nu: "next_utterance e ls = Inr (msg, ls1)"
    and ask: "\<not> truthy (current_speaker (state ls1))"
    and bad: "strip (orchestration_agent e (state ls1) msg (memory_get e (root_memory ls1)))
                \<notin> dispatchable"
  shows "\<exists>ls'. iteration e ls = Inr ls'
     \<and> state ls' = state ls1 \<and> stdin ls' = stdin ls1 \<and> root_memory ls' = root_memory ls1
     \<and> trace ls' = trace ls1 @
          [Orchestration_chat (state ls1) msg (memory_get e (root_memory ls1))]
     \<and> is_retry ls'
     \<and> (\<forall>e'. \<exists>ls''. iteration e' ls' = Inr ls''
           \<and> run_loop [e'] ls' = Inr (if should_continue ls1 then ls'' else ls')
           \<and> stdin ls'' = stdin ls1
           \<and> (\<exists>rest. trace ls'' = trace ls' @
                 Orchestration_chat (state ls1) retry_message (memory_get e' (root_memory ls1))
                 # rest))"

proof -
  define h where "h = memory_get e (root_memory ls1)"
  define ls' where "ls' = ls1\<lparr>current_history := Some (orchestration_passed_after e (state ls1) msg h),
      root_is_current := False,
      trace := trace ls1 @ [Orchestration_chat (state ls1) msg h], is_retry := True\<rparr>"
  have none: "dispatch (strip (orchestration_agent e (state ls1) msg h)) (state ls1) = None"
    using bad by (simp add: dispatch_None h_def)
  have it: "iteration e ls = Inr ls'"
    unfolding iteration_asks_orchestrator[OF nu ask] using none
    by (simp add: Let_def h_def[symmetric] ls'_def)
  have nf: "\<not> first_run ls'" using next_utterance_fields(2)[OF nu] by (simp add: ls'_def)
  have r: "is_retry ls'" by (simp add: ls'_def)
  have ask': "\<not> truthy (current_speaker (state ls'))" using ask by (simp add: ls'_def)
  have next_it: "\<exists>ls''. iteration e' ls' = Inr ls''
           \<and> run_loop [e'] ls' = Inr (if should_continue ls1 then ls'' else ls')
           \<and> stdin ls'' = stdin ls1
           \<and> (\<exists>rest. trace ls'' = trace ls' @
                 Orchestration_chat (state ls1) retry_message (memory_get e' (root_memory ls1))
                 # rest)" for e'
  proof -
    from retry_then_asks[OF r nf ask', of e'] obtain ls'' rest where
      i: "iteration e' ls' = Inr ls''" and s: "stdin ls'' = stdin ls'"
      and t: "trace ls'' = trace ls' @
           Orchestration_chat (state ls') retry_message (memory_get e' (root_memory ls')) # rest"
      by blast
    have sc: "should_continue ls' = should_continue ls1" by (simp add: ls'_def)
    have "run_loop [e'] ls' = Inr (if should_continue ls1 then ls'' else ls')"
      using i sc by simp
    moreover have "stdin ls'' = stdin ls1" using s by (simp add: ls'_def)
    moreover have "trace ls'' = trace ls' @
           Orchestration_chat (state ls1) retry_message (memory_get e' (root_memory ls1)) # rest"
      using t by (simp add: ls'_def)
    ultimately show ?thesis using i by blast
  qed
  have "state ls' = state ls1" "stdin ls' = stdin ls1" "root_memory ls' = root_memory ls1"
    "trace ls' = trace ls1 @ [Orchestration_chat (state ls1) msg (memory_get e (root_memory ls1))]"
    by (simp_all add: ls'_def h_def)
  then show ?thesis using it r next_it by blast
qed

theorem retry_edge_witness:
  "next_utterance banana_env (initial []) = Inr (''Hello there!'', (initial [])\<lparr>first_run := False\<rparr>)
   \<and> \<not> truthy (current_speaker (state ((initial [])\<lparr>first_run := False\<rparr>)))
   \<and> (\<exists>ls'. iteration banana_env (initial []) = Inr ls' \<and> is_retry ls'
         \<and> state ls' = get_initial_state \<and> stdin ls' = [])"
  using retry_edge[OF banana_utterance banana_asks banana_invalid] banana_utterance banana_asks
  by (auto simp: initial_def)

section \<open>The completion actions\<close>

text \<open>
  \<^verbatim>\<open>done\<close> of the pre-processing agent clears \<^verbatim>\<open>current_speaker\<close>, sets
  \<^verbatim>\<open>just_finished\<close> and writes no other field of the shared dictionary.
\<close>

lemma preprocessing_done_writes:
  "current_speaker (preprocessing_done st) = None \<and> just_finished (preprocessing_done st)
   \<and> preprocessing_done st = st\<lparr>current_speaker := None, just_finished := True\<rparr>"
  by (simp add: preprocessing_done_def)

text \<open>
  Claim C4. The completion action of every task agent should clear
  \<^verbatim>\<open>current_speaker\<close> and set \<^verbatim>\<open>just_finished\<close> in the shared dictionary.
  \<^verbatim>\<open>done\<close> of the generation agent assigns to its own parameter instead. Called with
  the empty string, it raises before any assignment, whatever the collaborators return;
  called with any argument, the tool leaves the shared dictionary as it was; called with
  a dictionary, it writes the two keys into that dictionary. In a run where the
  generation agent calls \<^verbatim>\<open>done\<close>, the agent keeps the floor and \<^verbatim>\<open>just_finished\<close>
  stays false.
\<close>

theorem generation_done_misses_shared_state:
  "(\<exists>err. generation_done c (PStr []) = Inl err)
   \<and> fst (generation_tool_call c (Done_tool arg) st) = st
   \<and> generation_done plain_collab (PDict [(''query'', PStr ''q'')]) =
       Inr (PDict [(''query'', PStr ''q''), (''current_speaker'', PNone), (''just_finished'', PBool True)], [])
   \<and> (\<exists>ls. run [] [generation_env] = Inr ls
         \<and> current_speaker (state ls) = Some ''generation'' \<and> \<not> just_finished (state ls))"
proof -
  have a: "\<exists>err. generation_done c (PStr []) = Inl err"
    by (auto simp: generation_done_def generation_def prompt_generation_def split: sum.splits)
  have b: "fst (generation_tool_call c (Done_tool arg) st) = st" by simp
  have d: "generation_done plain_collab (PDict [(''query'', PStr ''q'')]) =
       Inr (PDict [(''query'', PStr ''q''), (''current_speaker'', PNone), (''just_finished'', PBool True)], [])"
    by (simp add: tool_defs plain_collab_def)
  have e: "\<exists>ls. run [] [generation_env] = Inr ls
         \<and> current_speaker (state ls) = Some ''generation'' \<and> \<not> just_finished (state ls)"
    by (simp add: loop_defs env_defs generation_env_def tool_defs)
  show ?thesis using a b d e by blast
qed

section \<open>The continuation agent\<close>

text \<open>
  Claim C5. In a state that \<^verbatim>\<open>run\<close> reaches with \<^verbatim>\<open>just_finished\<close> set, in an
  iteration that is neither the first nor a retry: the first thing the iteration adds to
  the log is the call to the continuation agent, so the user is prompted only after it,
  and only when it answered \<^verbatim>\<open>no_further_task\<close>. Every agent that the iteration
  calls afterwards, and at least one is called, is shown the shared dictionary with
  \<^verbatim>\<open>just_finished\<close> false. If there is no line to read, the iteration ends after the
  call and the prompt. \<^verbatim>\<open>just_finished\<close> is false at the end of this iteration and
  of all later ones as long as no agent calls a completion action.
\<close>

theorem continuation_round_trip:
  assumes reach: "run lines es = Inr ls"
    and jf: "just_finished (state ls)" and nf: "\<not> first_run ls" and nr: "\<not> is_retry ls"
  shows "\<exists>h. current_history ls = Some h
     \<and> (case iteration e ls of
           Inl (err, ls1) \<Rightarrow>
             err = EOFError
             \<and> trace ls1 = trace ls @ [Continuation_chat (state ls) h, User_input ''>> '' None]
         | Inr ls' \<Rightarrow>
             run_loop [e] ls = Inr (if should_continue ls then ls' else ls)
             \<and> (\<exists>rest. trace ls' = trace ls @ Continuation_chat (state ls) h # rest
                   \<and> list_all (\<lambda>ev. event_state ev = None
                         \<or> event_state ev = Some ((state ls)\<lparr>just_finished := False\<rparr>)) rest
                   \<and> list_ex (\<lambda>ev. event_state ev = Some ((state ls)\<lparr>just_finished := False\<rparr>)) rest))
     \<and> (case next_utterance e ls of
           Inl (err, ls1) \<Rightarrow>
             err = EOFError \<and> continuation_agent e (state ls) h = ''no_further_task''
             \<and> trace ls1 = trace ls @ [Continuation_chat (state ls) h, User_input ''>> '' None]
         | Inr (msg, ls1) \<Rightarrow>
             \<not> just_finished (state ls1)
             \<and> (if continuation_agent e (state ls) h = ''no_further_task''
                 then \<exists>l. trace ls1 = trace ls @ [Continuation_chat (state ls) h, User_input ''>> '' (Some l)]
                        \<and> msg = strip l
                 else trace ls1 = trace ls @ [Continuation_chat (state ls) h]
                        \<and> msg = continuation_agent e (state ls) h \<and> stdin ls1 = stdin ls))
     \<and> (\<forall>ls' es' ls''. iteration e ls = Inr ls' \<and> quiet e \<and> (\<forall>e' \<in> set es'. quiet e')
           \<and> run_loop es' ls' = Inr ls'' \<longrightarrow> \<not> just_finished (state ls') \<and> \<not> just_finished (state ls''))"
proof -
  have "history_bound ls" using reach by (rule run_history_bound)
  then obtain h where h: "current_history ls = Some h"
    using nf by (auto simp: history_bound_def)
  have k: "known_speaker (state ls)" using reach by (rule run_known)
  note first = continuation_first[OF jf nf nr h, of e]
  have loop: "case iteration e ls of
           Inl (err, ls1) \<Rightarrow>
             err = EOFError
             \<and> trace ls1 = trace ls @ [Continuation_chat (state ls) h, User_input ''>> '' None]
         | Inr ls' \<Rightarrow>
             run_loop [e] ls = Inr (if should_continue ls then ls' else ls)
             \<and> (\<exists>rest. trace ls' = trace ls @ Continuation_chat (state ls) h # rest
                   \<and> list_all (\<lambda>ev. event_state ev = None
                         \<or> event_state ev = Some ((state ls)\<lparr>just_finished := False\<rparr>)) rest
                   \<and> list_ex (\<lambda>ev. event_state ev = Some ((state ls)\<lparr>just_finished := False\<rparr>)) rest)"
  proof (cases "next_utterance e ls")
    case (Inl x)
    obtain err ls1 where x: "x = (err, ls1)" by (cases x)
    have "iteration e ls = Inl (err, ls1)" using Inl x by (simp add: iteration_def)
    then show ?thesis using first Inl x by simp
  next
    case (Inr y)
    obtain msg ls1 where y: "y = (msg, ls1)" by (cases y)
    have nu: "next_utterance e ls = Inr (msg, ls1)" using Inr y by simp
    have st1: "state ls1 = (state ls)\<lparr>just_finished := False\<rparr>"
      using continuation_state[OF jf nf nr nu] .
    have k1: "known_speaker (state ls1)" using k st1 by (simp add: known_speaker_def)
    from continuation_inputs[OF jf nf nr h nu] obtain inputs where
      t1: "trace ls1 = trace ls @ Continuation_chat (state ls) h # inputs"
      and i1: "list_all (\<lambda>ev. event_state ev = None) inputs" by blast
    from iteration_events[OF nu k1] obtain ls' rest where
      it: "iteration e ls = Inr ls'" and t2: "trace ls' = trace ls1 @ rest" and ne: "rest \<noteq> []"
      and a2: "list_all (\<lambda>ev. event_state ev = Some (state ls1)) rest" by blast
    have t: "trace ls' = trace ls @ Continuation_chat (state ls) h # (inputs @ rest)"
      using t1 t2 by simp
    have la: "list_all (\<lambda>ev. event_state ev = None
                 \<or> event_state ev = Some ((state ls)\<lparr>just_finished := False\<rparr>)) (inputs @ rest)"
      using i1 a2 st1 by (auto simp: list_all_iff)
    have le: "list_ex (\<lambda>ev. event_state ev = Some ((state ls)\<lparr>just_finished := False\<rparr>)) (inputs @ rest)"
      using a2 ne st1 by (cases rest) (auto simp: list_all_iff list_ex_iff)
    have "run_loop [e] ls = Inr (if should_continue ls then ls' else ls)"
      using it by (simp add: run_loop_single)
    then show ?thesis using it t la le by auto
  qed
  have later: "\<not> just_finished (state ls') \<and> \<not> just_finished (state ls'')"
    if it: "iteration e ls = Inr ls'" and q: "quiet e" and qs: "\<forall>e' \<in> set es'. quiet e'"
      and rl: "run_loop es' ls' = Inr ls''" for ls' es' ls''
  proof -
    from iteration_utterance[OF it] obtain m ls1 where nu: "next_utterance e ls = Inr (m, ls1)"
      by blast
    have "\<not> just_finished (state ls1)" using first by (simp add: nu)
    then have a: "\<not> just_finished (state ls')"
      using iteration_after_utterance_quiet[OF it nu q] by simp
    show ?thesis using a run_loop_quiet[OF rl qs a] by simp
  qed
  show ?thesis using h first loop later by blast
qed

theorem continuation_round_trip_witness:
  "run [''thanks''] [preprocessing_env] = Inr after_preprocessing
   \<and> just_finished (state after_preprocessing) \<and> \<not> first_run after_preprocessing
   \<and> \<not> is_retry after_preprocessing \<and> quiet continue_env \<and> quiet plain_env
   \<and> (\<exists>ls' ls''. iteration continue_env after_preprocessing = Inr ls'
         \<and> run_loop [plain_env] ls' = Inr ls'' \<and> stdin ls'' = []
         \<and> \<not> just_finished (state ls') \<and> \<not> just_finished (state ls'')
         \<and> (\<exists>rest. trace ls' = trace after_preprocessing @
               Continuation_chat (state after_preprocessing) [] # rest))"
proof -
  obtain ls' ls'' where it: "iteration continue_env after_preprocessing = Inr ls'"
    and rl: "run_loop [plain_env] ls' = Inr ls''" and s: "stdin ls'' = []"
    using continue_then_plain by blast
  have qs: "\<forall>e' \<in> set [plain_env]. quiet e'" by (simp add: quiet_plain)
  have ch: "current_history after_preprocessing = Some []" by (simp add: after_preprocessing_def)
  note rt = continuation_round_trip[OF run_preprocessing after_preprocessing_flags, of continue_env]
  from rt have "\<forall>ls' es' ls''. iteration continue_env after_preprocessing = Inr ls' \<and> quiet continue_env
           \<and> (\<forall>e' \<in> set es'. quiet e') \<and> run_loop es' ls' = Inr ls''
           \<longrightarrow> \<not> just_finished (state ls') \<and> \<not> just_finished (state ls'')"
    by blast
  then have a: "\<not> just_finished (state ls') \<and> \<not> just_finished (state ls'')"
    using it rl qs quiet_plain(2) by blast
  from rt have "\<exists>rest. trace ls' = trace after_preprocessing @
               Continuation_chat (state after_preprocessing) [] # rest"
    using it ch by auto
  then show ?thesis
    using a it rl s run_preprocessing after_preprocessing_flags quiet_plain by blast
qed

text \<open>
  Claim C6 is about what the list given to the continuation agent holds. Line 227 gives
  it the list bound to \<^verbatim>\<open>current_history\<close>, the one that the agents of the iteration
  before were given at lines 249 and 279. The loop does not write to that list; whether
  it holds the turn that has just completed is what the chats of the library left in it
  (\<open>passed_after\<close> and \<open>memory_is_passed\<close>), which the sources do not decide.
\<close>

text \<open>
  Claim C7. The answers of the orchestration agent and of the continuation agent should
  both be compared after stripping. Line 250 strips the first; line 229 compares the
  second as it is. Here the continuation agent answers \<^verbatim>\<open>no_further_task\<close> followed
  by a line feed: the user is not prompted (the line \<^verbatim>\<open>thanks\<close> stays on standard
  input) and the answer itself is the message of the turn, while the answer of the
  orchestration agent, \<^verbatim>\<open>Concierge\<close> between a space and a line feed, selects the
  concierge agent.
\<close>

theorem continuation_sentinel_not_stripped:
  "run [''thanks''] [preprocessing_env] = Inr after_preprocessing
   \<and> iteration whitespace_env after_preprocessing =
       Inr (after_preprocessing
             \<lparr>state := processed,
              current_history := Some (root_memory after_preprocessing),
              root_memory := exchange (''no_further_task'' @ [CHR 0x0A]) ''ok'' (root_memory after_preprocessing),
              trace := trace after_preprocessing @
                [Continuation_chat (state after_preprocessing) [],
                 Orchestration_chat processed (''no_further_task'' @ [CHR 0x0A])
                   (root_memory after_preprocessing),
                 Agent_chat ConciergeAgent processed (''no_further_task'' @ [CHR 0x0A])
                   (root_memory after_preprocessing)]\<rparr>)
   \<and> stdin after_preprocessing = [''thanks'']
   \<and> strip (''no_further_task'' @ [CHR 0x0A]) = ''no_further_task''"
  using run_preprocessing
  by (simp add: loop_defs env_defs after_preprocessing_def processed_def strip_def isspace_def)

section \<open>The parameter setters\<close>

text \<open>
  Claim C9, as amended. Each of \<^verbatim>\<open>has_input_dir\<close>, \<^verbatim>\<open>has_chunk_size\<close> and
  \<^verbatim>\<open>has_chunk_overlap\<close> stores its argument in its field, writes no other field,
  raises nothing and returns whether the argument is not \<^verbatim>\<open>None\<close>. Called with
  \<^verbatim>\<open>None\<close>, the field is \<^verbatim>\<open>None\<close> afterwards and the result is false; called with
  the empty string, the field holds the empty string and the result is true.
\<close>

theorem setters_store_argument:
  "has_input_dir v st = (st\<lparr>input_dir := v\<rparr>, v \<noteq> PNone)
   \<and> has_chunk_size v st = (st\<lparr>chunk_size := v\<rparr>, v \<noteq> PNone)
   \<and> has_chunk_overlap v st = (st\<lparr>chunk_overlap := v\<rparr>, v \<noteq> PNone)
   \<and> has_input_dir PNone st = (st\<lparr>input_dir := PNone\<rparr>, False)
   \<and> has_chunk_size PNone st = (st\<lparr>chunk_size := PNone\<rparr>, False)
   \<and> has_chunk_overlap PNone st = (st\<lparr>chunk_overlap := PNone\<rparr>, False)
   \<and> has_input_dir (PStr []) st = (st\<lparr>input_dir := PStr []\<rparr>, True)
   \<and> has_chunk_size (PStr []) st = (st\<lparr>chunk_size := PStr []\<rparr>, True)
   \<and> has_chunk_overlap (PStr []) st = (st\<lparr>chunk_overlap := PStr []\<rparr>, True)"
  by (simp add: has_input_dir_def has_chunk_size_def has_chunk_overlap_def)

text \<open>
  Claim C9 as stated fails twice. Called with the empty string on the initial state,
  \<^verbatim>\<open>has_input_dir\<close> stores the empty string and returns true. Called with
  \<^verbatim>\<open>None\<close> when the field holds \<^verbatim>\<open>/docs\<close>, it clears the field.
\<close>

theorem setter_counterexample:
  "input_dir (fst (has_input_dir (PStr []) get_initial_state)) = PStr []
   \<and> snd (has_input_dir (PStr []) get_initial_state) = True
   \<and> input_dir (get_initial_state\<lparr>input_dir := PStr ''/docs''\<rparr>) = PStr ''/docs''
   \<and> input_dir (fst (has_input_dir PNone (get_initial_state\<lparr>input_dir := PStr ''/docs''\<rparr>))) = PNone"
  by (simp add: has_input_dir_def get_initial_state_def)

section \<open>The dispatch\<close>

text \<open>
  Claim C10. The members \<^verbatim>\<open>retriever\<close>, \<^verbatim>\<open>reranking\<close> and \<^verbatim>\<open>orchestrator\<close> of
  \<^verbatim>\<open>Speaker\<close> have no agent, and the comparison is case-sensitive. The dispatch
  finds an agent for exactly four strings. In an iteration that asks the orchestration
  agent: an answer among the three members ends the iteration as any other unknown
  answer does, with \<^verbatim>\<open>is_retry\<close> set and no agent; the answer \<^verbatim>\<open>Concierge\<close> lets the
  concierge agent chat and \<^verbatim>\<open>current_speaker\<close> is \<^verbatim>\<open>None\<close> at the end of the
  iteration; an answer among the three task speakers lets the agent of that speaker
  chat on the shared dictionary with the speaker stored in \<^verbatim>\<open>current_speaker\<close>,
  where it still is at the end of the iteration unless the agent called its completion
  action.
\<close>

theorem dispatch_table:
  assumes nu: "next_utterance e ls = Inr (msg, ls1)"
    and cs: "current_speaker (state ls1) = None"
  shows "dispatch ''retriever'' st = None \<and> dispatch ''reranking'' st = None
     \<and> dispatch ''orchestrator'' st = None
     \<and> dispatch ''concierge'' st = None \<and> dispatch ''Indexing'' st = None
     \<and> (dispatch s st = None) =
         (s \<notin> {''data_pre_processing'', ''indexing'', ''generation'', ''Concierge''})
     \<and> dispatch ''data_pre_processing'' st =
         Some (DocumentPreprocessingAgent, st\<lparr>current_speaker := Some ''data_pre_processing''\<rparr>)
     \<and> dispatch ''indexing'' st =
         Some (QdrantIndexingAgent, st\<lparr>current_speaker := Some ''indexing''\<rparr>)
     \<and> dispatch ''generation'' st =
         Some (GenerationAgent, st\<lparr>current_speaker := Some ''generation''\<rparr>)
     \<and> dispatch ''Concierge'' st = Some (ConciergeAgent, st)
     \<and> (let h = memory_get e (root_memory ls1);
             r = strip (orchestration_agent e (state ls1) msg h);
             h1 = orchestration_passed_after e (state ls1) msg h;
             asked = ls1\<lparr>current_history := Some h1, root_is_current := False,
                        trace := trace ls1 @ [Orchestration_chat (state ls1) msg h]\<rparr>
         in (r \<in> {''retriever'', ''reranking'', ''orchestrator''} \<or> r \<notin> dispatchable
               \<longrightarrow> iteration e ls = Inr (asked\<lparr>is_retry := True\<rparr>))
          \<and> (r = ''Concierge'' \<longrightarrow>
               (\<exists>ls'. iteration e ls = Inr ls' \<and> state ls' = state ls1
                  \<and> current_speaker (state ls') = None \<and> is_retry ls' = is_retry ls1
                  \<and> trace ls' = trace asked @ [Agent_chat ConciergeAgent (state ls1) msg h1]))
          \<and> (r \<in> {''data_pre_processing'', ''indexing'', ''generation''} \<longrightarrow>
               (\<exists>ls' a. iteration e ls = Inr ls'
                  \<and> dispatch r (state ls1) = Some (a, (state ls1)\<lparr>current_speaker := Some r\<rparr>)
                  \<and> state ls' =
                      fst (agent_chat e a (state ls1) msg h1
                             ((state ls1)\<lparr>current_speaker := Some r\<rparr>))
                  \<and> (quiet e \<longrightarrow> current_speaker (state ls') = Some r)
                  \<and> (current_speaker (state ls') = Some r \<or> current_speaker (state ls') = None)
                  \<and> is_retry ls' = is_retry ls1
                  \<and> trace ls' = trace asked @ [Agent_chat a (state ls1) msg h1])))"
proof -
  have ask: "\<not> truthy (current_speaker (state ls1))" using cs by (simp add: truthy_def)
  have a: "dispatch ''retriever'' st = None \<and> dispatch ''reranking'' st = None
     \<and> dispatch ''orchestrator'' st = None
     \<and> dispatch ''concierge'' st = None \<and> dispatch ''Indexing'' st = None"
    by (simp add: dispatch_def)
  have b: "(dispatch s st = None) =
         (s \<notin> {''data_pre_processing'', ''indexing'', ''generation'', ''Concierge''})"
    by (simp add: dispatch_def)
  have c: "dispatch ''data_pre_processing'' st =
         Some (DocumentPreprocessingAgent, st\<lparr>current_speaker := Some ''data_pre_processing''\<rparr>)
     \<and> dispatch ''indexing'' st =
         Some (QdrantIndexingAgent, st\<lparr>current_speaker := Some ''indexing''\<rparr>)
     \<and> dispatch ''generation'' st =
         Some (GenerationAgent, st\<lparr>current_speaker := Some ''generation''\<rparr>)
     \<and> dispatch ''Concierge'' st = Some (ConciergeAgent, st)"
    by (simp add: dispatch_def)
  define h where "h = memory_get e (root_memory ls1)"
  define r where "r = strip (orchestration_agent e (state ls1) msg h)"
  define h1 where "h1 = orchestration_passed_after e (state ls1) msg h"
  define asked where "asked = ls1\<lparr>current_history := Some h1, root_is_current := False,
                        trace := trace ls1 @ [Orchestration_chat (state ls1) msg h]\<rparr>"
  have it: "iteration e ls =
      (case dispatch r (state ls1) of
           None \<Rightarrow> Inr (asked\<lparr>is_retry := True\<rparr>)
         | Some (a, st) \<Rightarrow>
             Inr (asked\<lparr>state := fst (agent_chat e a (state ls1) msg h1 st),
                      root_memory := snd (snd (agent_chat e a (state ls1) msg h1 st)),
                      current_history := Some (fst (passed_list e a (state ls1) msg h1)),
                      root_is_current := snd (passed_list e a (state ls1) msg h1),
                      trace := trace asked @ [Agent_chat a (state ls1) msg h1]\<rparr>))"
    unfolding iteration_asks_orchestrator[OF nu ask]
    by (auto simp: Let_def h_def r_def h1_def asked_def split: option.splits)
  have d1: "r \<in> {''retriever'', ''reranking'', ''orchestrator''} \<or> r \<notin> dispatchable
               \<longrightarrow> iteration e ls = Inr (asked\<lparr>is_retry := True\<rparr>)"
    unfolding it by (auto simp: dispatch_def dispatchable_def)
  have d2: "r = ''Concierge'' \<longrightarrow>
               (\<exists>ls'. iteration e ls = Inr ls' \<and> state ls' = state ls1
                  \<and> current_speaker (state ls') = None \<and> is_retry ls' = is_retry ls1
                  \<and> trace ls' = trace asked @ [Agent_chat ConciergeAgent (state ls1) msg h1])"
    unfolding it using cs by (auto simp: dispatch_def agent_chat_concierge asked_def)
  have d3: "\<exists>ls' a. iteration e ls = Inr ls'
                  \<and> dispatch r (state ls1) = Some (a, (state ls1)\<lparr>current_speaker := Some r\<rparr>)
                  \<and> state ls' =
                      fst (agent_chat e a (state ls1) msg h1
                             ((state ls1)\<lparr>current_speaker := Some r\<rparr>))
                  \<and> (quiet e \<longrightarrow> current_speaker (state ls') = Some r)
                  \<and> (current_speaker (state ls') = Some r \<or> current_speaker (state ls') = None)
                  \<and> is_retry ls' = is_retry ls1
                  \<and> trace ls' = trace asked @ [Agent_chat a (state ls1) msg h1]"
    if r3: "r \<in> {''data_pre_processing'', ''indexing'', ''generation''}"
  proof -
    obtain a where d: "dispatch r (state ls1) = Some (a, (state ls1)\<lparr>current_speaker := Some r\<rparr>)"
      using r3 by (auto simp: dispatch_def)
    define ls' where "ls' = asked\<lparr>state := fst (agent_chat e a (state ls1) msg h1
                                       ((state ls1)\<lparr>current_speaker := Some r\<rparr>)),
                      root_memory := snd (snd (agent_chat e a (state ls1) msg h1
                                       ((state ls1)\<lparr>current_speaker := Some r\<rparr>))),
                      current_history := Some (fst (passed_list e a (state ls1) msg h1)),
                      root_is_current := snd (passed_list e a (state ls1) msg h1),
                      trace := trace asked @ [Agent_chat a (state ls1) msg h1]\<rparr>"
    have i: "iteration e ls = Inr ls'" unfolding it using d by (simp add: ls'_def)
    have s: "state ls' = fst (agent_chat e a (state ls1) msg h1
                             ((state ls1)\<lparr>current_speaker := Some r\<rparr>))"
      by (simp add: ls'_def)
    have q: "quiet e \<longrightarrow> current_speaker (state ls') = Some r"
      using agent_chat_quiet[of e a "state ls1" msg h1 "(state ls1)\<lparr>current_speaker := Some r\<rparr>"] s
      by simp
    have k: "current_speaker (state ls') = Some r \<or> current_speaker (state ls') = None"
      using agent_chat_speaker[of e a "state ls1" msg h1 "(state ls1)\<lparr>current_speaker := Some r\<rparr>"] s
      by simp
    have "is_retry ls' = is_retry ls1" "trace ls' = trace asked @ [Agent_chat a (state ls1) msg h1]"
      by (simp_all add: ls'_def asked_def)
    then show ?thesis using i d s q k by blast
  qed
  have d: "let h = memory_get e (root_memory ls1);
             r = strip (orchestration_agent e (state ls1) msg h);
             h1 = orchestration_passed_after e (state ls1) msg h;
             asked = ls1\<lparr>current_history := Some h1, root_is_current := False,
                        trace := trace ls1 @ [Orchestration_chat (state ls1) msg h]\<rparr>
         in (r \<in> {''retriever'', ''reranking'', ''orchestrator''} \<or> r \<notin> dispatchable
               \<longrightarrow> iteration e ls = Inr (asked\<lparr>is_retry := True\<rparr>))
          \<and> (r = ''Concierge'' \<longrightarrow>
               (\<exists>ls'. iteration e ls = Inr ls' \<and> state ls' = state ls1
                  \<and> current_speaker (state ls') = None \<and> is_retry ls' = is_retry ls1
                  \<and> trace ls' = trace asked @ [Agent_chat ConciergeAgent (state ls1) msg h1]))
          \<and> (r \<in> {''data_pre_processing'', ''indexing'', ''generation''} \<longrightarrow>
               (\<exists>ls' a. iteration e ls = Inr ls'
                  \<and> dispatch r (state ls1) = Some (a, (state ls1)\<lparr>current_speaker := Some r\<rparr>)
                  \<and> state ls' =
                      fst (agent_chat e a (state ls1) msg h1
                             ((state ls1)\<lparr>current_speaker := Some r\<rparr>))
                  \<and> (quiet e \<longrightarrow> current_speaker (state ls') = Some r)
                  \<and> (current_speaker (state ls') = Some r \<or> current_speaker (state ls') = None)
                  \<and> is_retry ls' = is_retry ls1
                  \<and> trace ls' = trace asked @ [Agent_chat a (state ls1) msg h1]))"
    unfolding Let_def h_def[symmetric] r_def[symmetric] h1_def[symmetric] asked_def[symmetric]
    using d1 d2 d3 by blast
  show ?thesis using a b c d by blast
qed

theorem dispatch_table_witness:
  "next_utterance retriever_env (initial []) = Inr (''Hello there!'', (initial [])\<lparr>first_run := False\<rparr>)
   \<and> next_utterance indexing_env (initial []) = Inr (''Hello there!'', (initial [])\<lparr>first_run := False\<rparr>)
   \<and> current_speaker (state ((initial [])\<lparr>first_run := False\<rparr>)) = None
   \<and> strip (orchestration_agent retriever_env get_initial_state ''Hello there!'' []) = ''retriever''
   \<and> iteration retriever_env (initial []) =
       Inr ((initial [])\<lparr>first_run := False, current_history := Some [],
              trace := [Orchestration_chat get_initial_state ''Hello there!'' []],
              is_retry := True\<rparr>)
   \<and> strip (orchestration_agent indexing_env get_initial_state ''Hello there!'' []) = ''indexing''
   \<and> quiet indexing_env
   \<and> (\<exists>ls'. iteration indexing_env (initial []) = Inr ls'
         \<and> current_speaker (state ls') = Some ''indexing''
         \<and> trace ls' = [Orchestration_chat get_initial_state ''Hello there!'' [],
                         Agent_chat QdrantIndexingAgent get_initial_state ''Hello there!'' []])"
proof -
  have first: "iteration retriever_env (initial []) =
       Inr ((initial [])\<lparr>first_run := False, current_history := Some [],
              trace := [Orchestration_chat get_initial_state ''Hello there!'' []],
              is_retry := True\<rparr>)"
    using dispatch_table[OF retriever_utterance initial_no_speaker] indexing_answer(2)
    by (simp add: Let_def initial_def retriever_env_def plain_env_def)
  have second: "\<exists>ls'. iteration indexing_env (initial []) = Inr ls'
         \<and> current_speaker (state ls') = Some ''indexing''
         \<and> trace ls' = [Orchestration_chat get_initial_state ''Hello there!'' [],
                         Agent_chat QdrantIndexingAgent get_initial_state ''Hello there!'' []]"
    using dispatch_table[OF indexing_utterance initial_no_speaker] indexing_answer(1) quiet_indexing
    by (auto simp: Let_def initial_def indexing_env_def plain_env_def dispatch_def)
  show ?thesis
    using first second retriever_utterance indexing_utterance initial_no_speaker indexing_answer
      quiet_indexing
    by blast
qed

end
